theory Spec2Isabelle
  imports Complex_Main "HOL-Library.Sublist" "HOL-Library.AList" "HOL-Library.Multiset"
begin

section \<open>JavaScript values and strings\<close>

text \<open>
  A JavaScript string is a sequence of UTF-16 code units. Code units are modelled as
  natural numbers (below \<open>2 ^ 16\<close> in every string the program handles), so that the
  Devanagari keywords of the taxonomy tables can be written out unit by unit.
  \<open>lit\<close> turns an ASCII literal into its code units.
\<close>

type_synonym jsstring = "nat list"

definition lit :: "string \<Rightarrow> jsstring" where
  "lit s = map of_char s"

text \<open>
  \<open>String.prototype.trim\<close> strips the ECMAScript WhiteSpace and LineTerminator code
  points from both ends: TAB, LF, VT, FF, CR, SPACE, NBSP, U+1680, U+2000 .. U+200A,
  U+2028, U+2029, U+202F, U+205F, U+3000 and U+FEFF.
\<close>

definition isWhiteSpace :: "nat \<Rightarrow> bool" where
  "isWhiteSpace c \<longleftrightarrow>
     c \<in> set [0x0009, 0x000A, 0x000B, 0x000C, 0x000D, 0x0020, 0x00A0, 0x1680,
              0x2000, 0x2001, 0x2002, 0x2003, 0x2004, 0x2005, 0x2006, 0x2007, 0x2008,
              0x2009, 0x200A, 0x2028, 0x2029, 0x202F, 0x205F, 0x3000, 0xFEFF]"

definition trim :: "jsstring \<Rightarrow> jsstring" where
  "trim s = rev (dropWhile isWhiteSpace (rev (dropWhile isWhiteSpace s)))"

text \<open>
  \<open>String.prototype.includes\<close>: the search string occurs as a contiguous run of code
  units. Every string includes the empty string.
\<close>

fun str_includes :: "jsstring \<Rightarrow> jsstring \<Rightarrow> bool" where
  "str_includes [] k = (k = [])"
| "str_includes (c # cs) k = (prefix k (c # cs) \<or> str_includes cs k)"

text \<open>
  \<open>String.prototype.toLowerCase\<close> is a built-in that follows the Unicode case
  mappings. The classifiers below take it as the parameter \<open>toLowerCase\<close>, so that
  general theorems hold for whatever the engine computes. \<open>toLowerCase_ascii\<close> is the
  built-in on strings whose only cased code units are the ASCII letters (all keywords
  and all concrete inputs in this development: ASCII and Devanagari, which has no case).
\<close>

definition toLowerCase_ascii :: "jsstring \<Rightarrow> jsstring" where
  "toLowerCase_ascii s = map (\<lambda>c. if 0x41 \<le> c \<and> c \<le> 0x5A then c + 0x20 else c) s"

text \<open>
  The values a field of a record can hold after \<open>JSON.parse\<close> of a flat object:
  absent (\<open>undefined\<close> on access), \<open>null\<close>, a boolean, a number or a string.
\<close>

datatype jsval = JUndefined | JNull | JBool bool | JNum real | JStr jsstring

datatype js_error = TypeError

fun truthy :: "jsval \<Rightarrow> bool" where
  "truthy JUndefined = False"
| "truthy JNull = False"
| "truthy (JBool b) = b"
| "truthy (JNum r) = (r \<noteq> 0)"
| "truthy (JStr s) = (s \<noteq> [])"

text \<open>The operator \<open>a || b\<close>.\<close>

definition js_or :: "jsval \<Rightarrow> jsval \<Rightarrow> jsval" where
  "js_or a b = (if truthy a then a else b)"

text \<open>A record of the data set, and the property access \<open>row[column]\<close>.\<close>

type_synonym row = "jsstring \<rightharpoonup> jsval"

definition field :: "row \<Rightarrow> jsstring \<Rightarrow> jsval" where
  "field r column = (case r column of None \<Rightarrow> JUndefined | Some v \<Rightarrow> v)"

section \<open>Numbers\<close>

text \<open>
  A JavaScript number is an IEEE 754 binary64 value, and every arithmetic operation
  returns the exact result rounded to the nearest such value, ties to even. A finite
  double is modelled as the real number it denotes; \<open>fl\<close> is the rounding.

  \<open>normalise\<close> scales the magnitude into \<open>[2 ^ 52, 2 ^ 53)\<close>, so that the unit in the
  last place is the returned factor; it stops at \<open>2 ^ -1074\<close>, the unit of the
  subnormal numbers (\<open>1074\<close> halvings at most). Overflow to \<open>Infinity\<close> is not
  modelled: the program divides a count by a total that is at least as large and
  multiplies by \<open>100\<close>, so no result exceeds \<open>100\<close>. The counters are integers below
  \<open>2 ^ 53\<close> as long as the data set has fewer than \<open>2 ^ 53\<close> records; up to there a
  double holds them exactly and \<open>+= 1\<close> is exact.
\<close>

definition roundHalfEven :: "real \<Rightarrow> int" where
  "roundHalfEven x =
     (let n = \<lfloor>x\<rfloor>; r = x - of_int n
      in if r < 1 / 2 then n else if 1 / 2 < r then n + 1 else if even n then n else n + 1)"

definition minUnit :: real where
  "minUnit = 1 / 2 ^ 1074"

fun normalise :: "nat \<Rightarrow> real \<Rightarrow> real \<Rightarrow> real \<times> real" where
  "normalise 0 m s = (m, s)"
| "normalise (Suc n) m s =
     (if 2 ^ 53 \<le> m then normalise n (m / 2) (s * 2)
      else if m < 2 ^ 52 \<and> minUnit < s then normalise n (m * 2) (s / 2)
      else (m, s))"

definition fl :: "real \<Rightarrow> real" where
  "fl x = (case normalise 1074 \<bar>x\<bar> 1 of (m, s) \<Rightarrow> sgn x * of_int (roundHalfEven m) * s)"

text \<open>One element \<open>{ name, value }\<close> of the arrays handed to the charts.\<close>

record dist_entry =
  name :: jsstring
  "value" :: real

text \<open>
  A counter object such as \<open>counts\<close> or \<open>disposeCount\<close>: its keys are category names
  (never array indices), so \<open>Object.keys\<close>, \<open>Object.values\<close> and \<open>Object.entries\<close>
  enumerate them in insertion order. It is modelled as an association list in that
  order; assigning to an existing key keeps its place, a new key goes to the end
  (\<open>AList.update\<close>).
\<close>

type_synonym counter = "(jsstring \<times> nat) list"

text \<open>\<open>obj[k] || 0\<close>: the count of a key, \<open>0\<close> for a key that is not there.\<close>

definition countOf :: "counter \<Rightarrow> jsstring \<Rightarrow> nat" where
  "countOf obj k = (case map_of obj k of None \<Rightarrow> 0 | Some c \<Rightarrow> c)"

text \<open>\<open>obj[k] = (obj[k] || 0) + 1\<close>, and \<open>obj[k] += 1\<close> for a key that is present.\<close>

definition bump :: "counter \<Rightarrow> jsstring \<Rightarrow> counter" where
  "bump obj k = AList.update k (countOf obj k + 1) obj"

text \<open>\<open>Object.values(obj).reduce((sum, count) => sum + count, 0)\<close>\<close>

definition totalOf :: "counter \<Rightarrow> nat" where
  "totalOf obj = foldl (\<lambda>sum count. sum + count) 0 (map snd obj)"

text \<open>
  \<open>.map(([name, count]) => ({ name, value: totalCount > 0 ? (count / totalCount) * 100 : 0 }))\<close>:
  a division and a multiplication, each rounded.
\<close>

definition percentages :: "nat \<Rightarrow> counter \<Rightarrow> dist_entry list" where
  "percentages totalCount obj =
     map (\<lambda>(k, count).
            \<lparr>name = k,
             value = (if totalCount > 0 then fl (fl (real count / real totalCount) * 100)
                      else 0)\<rparr>) obj"


text \<open>
  \<open>.sort((a, b) => b.value - a.value)\<close>: \<open>Array.prototype.sort\<close> is stable, and the
  rounded difference of two doubles has the sign of their exact difference, so this is
  the stable sort by descending \<open>value\<close>.
\<close>

definition sortDescending :: "dist_entry list \<Rightarrow> dist_entry list" where
  "sortDescending xs = sort_key (\<lambda>e. - value e) xs"

text \<open>\<open>forEach\<close> with a body that may throw: the first exception ends the loop.\<close>

fun forEach :: "('a \<Rightarrow> 's \<Rightarrow> js_error + 's) \<Rightarrow> 'a list \<Rightarrow> 's \<Rightarrow> js_error + 's" where
  "forEach body [] s = Inr s"
| "forEach body (x # xs) s =
     (case body x s of Inl e \<Rightarrow> Inl e | Inr s' \<Rightarrow> forEach body xs s')"

section \<open>Boolean-flag aggregations\<close>

definition wasteTypeToColumnMap :: "(jsstring \<times> jsstring) list" where
  "wasteTypeToColumnMap =
    [(lit ''Organic & Wet'', lit ''Organic and Wet Waste''),
     (lit ''Plastic Paper'', lit ''Plastic Paper Glass Waste''),
     (lit ''Sanitary & Hazardous'', lit ''Sanitary and Hazardous Waste''),
     (lit ''Battery & Bulb'', lit ''Battery and Bulb Waste''),
     (lit ''Construction & Demolition'', lit ''Construction and Demolition Waste''),
     (lit ''Clothes'', lit ''Clothes Waste''),
     (lit ''Carcasses'', lit ''Carcasses Waste''),
     (lit ''Others'', lit ''Others'')]"

text \<open>The scan of one record in \<open>calculateWasteTypeCounts\<close>.\<close>

definition wasteTypeRow :: "row \<Rightarrow> counter \<Rightarrow> counter" where
  "wasteTypeRow r counts =
     fold (\<lambda>(type, column) c. if field r column = JNum 1 then bump c type else c)
          wasteTypeToColumnMap counts"

text \<open>The object \<open>counts\<close> after the scan of all records.\<close>

definition wasteTypeCounts :: "row list \<Rightarrow> counter" where
  "wasteTypeCounts data =
     fold wasteTypeRow data
       (fold (\<lambda>type c. AList.update type 0 c) (map fst wasteTypeToColumnMap) [])"

definition calculateWasteTypeCounts :: "row list \<Rightarrow> dist_entry list" where
  "calculateWasteTypeCounts data =
    (let counts = wasteTypeCounts data
     in map (\<lambda>key. \<lparr>name = key, value = real (countOf counts key)\<rparr>)
            (filter (\<lambda>key. countOf counts key > 0) (map fst counts)))"

definition calculatePieForRow :: "row \<Rightarrow> dist_entry list" where
  "calculatePieForRow r =
     map (\<lambda>(type, column). \<lparr>name = type, value = 1\<rparr>)
         (filter (\<lambda>(type, column). field r column = JNum 1) wasteTypeToColumnMap)"

text \<open>
  The tooltip of a map marker, \<open>getGarbagePointInfo\<close>, lists the waste types of a record
  from the same columns: \<open>Object.keys(wasteTypesMap).filter((k) => row[k] === 1 ||
  row[k] === true)\<close>, before the labels are looked up and joined. The labels start with
  a bullet, U+2022.
\<close>

definition wasteTypesMap :: "(jsstring \<times> jsstring) list" where
  "wasteTypesMap =
     map (\<lambda>k. (lit k, [0x2022, 0x0020] @ lit k))
       [''Organic and Wet Waste'', ''Plastic Paper Glass Waste'',
        ''Sanitary and Hazardous Waste'', ''Battery and Bulb Waste'',
        ''Construction and Demolition Waste'', ''Clothes Waste'', ''Carcasses Waste'',
        ''Others'']"

definition wasteTypesFlagged :: "row \<Rightarrow> jsstring list" where
  "wasteTypesFlagged r =
     filter (\<lambda>k. field r k = JNum 1 \<or> field r k = JBool True) (map fst wasteTypesMap)"

definition problemsCount0 :: counter where
  "problemsCount0 =
    [(lit ''Bad Odour'', 0), (lit ''Mosquitos'', 0), (lit ''Stray Animals'', 0),
     (lit ''Congestion'', 0), (lit ''Other'', 0)]"

definition problemsRow :: "row \<Rightarrow> counter \<Rightarrow> counter" where
  "problemsRow r counts =
     fold (\<lambda>problem c. if field r problem = JNum 1 then bump c problem else c)
          (map fst counts) counts"

definition problemsCount :: "row list \<Rightarrow> counter" where
  "problemsCount data = fold problemsRow data problemsCount0"

definition calculateProblemsData :: "row list \<Rightarrow> dist_entry list" where
  "calculateProblemsData data =
    (let counts = problemsCount data;
         totalCount = totalOf counts
     in sortDescending (percentages totalCount counts))"

definition reasonsCount0 :: counter where
  "reasonsCount0 =
    [(lit ''No Regular Collection Vehicle'', 0), (lit ''Random People Throwing Garbage'', 0),
     (lit ''Due To User Fee'', 0), (lit ''Mismatch of Vehicle Time'', 0),
     (lit ''Due to Narrow Road'', 0), (lit ''Because of Market and Street Vendors'', 0)]"

definition reasonsRow :: "row \<Rightarrow> counter \<Rightarrow> counter" where
  "reasonsRow r counts =
     fold (\<lambda>reason c. if field r reason = JNum 1 \<or> field r reason = JBool True
                        then bump c reason else c)
          (map fst counts) counts"

definition reasonsCount :: "row list \<Rightarrow> counter" where
  "reasonsCount data = fold reasonsRow data reasonsCount0"

definition calculateReasonsData :: "row list \<Rightarrow> dist_entry list" where
  "calculateReasonsData data =
    (let counts = reasonsCount data;
         totalCount = totalOf counts
     in sortDescending (percentages totalCount counts))"

section \<open>Free-text classifiers and their aggregations\<close>

record taxonomy_entry =
  category :: jsstring
  "keywords" :: "jsstring list"

text \<open>
  \<open>keywords.some((k) => lowerText.includes(kw k))\<close> for one entry, where \<open>kw\<close> is what
  the classifier applies to a keyword before the comparison (\<open>k.toLowerCase()\<close> in
  \<open>categorize\<close> and \<open>categorizeSolution\<close>, nothing in \<open>categorizeLocation\<close>).
\<close>

definition someKeyword :: "(jsstring \<Rightarrow> jsstring) \<Rightarrow> jsstring \<Rightarrow> taxonomy_entry \<Rightarrow> bool" where
  "someKeyword kw lowerText e = list_ex (\<lambda>k. str_includes lowerText (kw k)) (keywords e)"

text \<open>
  The \<open>for ... of\<close> loop shared by the three classifiers: the entries in declaration
  order, returning the category of the first one with a matching keyword.
\<close>

fun firstMatch ::
  "(jsstring \<Rightarrow> jsstring) \<Rightarrow> taxonomy_entry list \<Rightarrow> jsstring \<Rightarrow> jsstring option" where
  "firstMatch kw [] lowerText = None"
| "firstMatch kw (e # es) lowerText =
     (if someKeyword kw lowerText e then Some (category e)
      else firstMatch kw es lowerText)"

definition categoryMap :: "taxonomy_entry list" where
  "categoryMap =
    [\<lparr>category = lit ''Nearby Households'',
      keywords =
       [lit ''nearby household'', lit ''house hol'', lit ''households'', lit ''colony people'',
        lit ''banglow wale log'', [0x091C, 0x0935, 0x0933, 0x0020, 0x092A, 0x093E, 0x0938],
        [0x0938, 0x094B, 0x0938, 0x093E, 0x092F, 0x091F, 0x0940]]\<rparr>,
     \<lparr>category = lit ''Vendors / Small Stalls'',
      keywords =
       [lit ''vendor'', lit ''stall'', lit ''shop'', lit ''chai wale'', lit ''market wale'',
        lit ''street vendor'']\<rparr>,
     \<lparr>category = lit ''People from Outside'',
      keywords =
       [lit ''outside'', [0x092C, 0x093E, 0x0939, 0x0947, 0x0930, 0x0942, 0x0928],
        [0x092A, 0x0930, 0x094D, 0x092F, 0x091F, 0x0915], lit ''outsider'', lit ''visitor'']\<rparr>,
     \<lparr>category = lit ''Passing Crowd / Vehicle People'',
      keywords =
       [[0x0917, 0x093E, 0x0921, 0x0940],
        [0x091C, 0x093E, 0x0923, 0x094D, 0x092F, 0x093E, 0x0020, 0x092F, 0x0947, 0x0923, 0x093E, 0x0931, 0x094D, 0x092F, 0x093E],
        [0x0911, 0x091F, 0x094B], lit ''vehicle'', lit ''passing'']\<rparr>,
     \<lparr>category = lit ''Households and Vendors Mixed'',
      keywords =
       [lit ''households , people from outside , street vendors'',
        lit ''vendor and households'', lit ''people and households'', lit ''mixed'']\<rparr>,
     \<lparr>category = lit ''Construction Waste'',
      keywords =
       [lit ''construction'', lit ''repair'', [0x0915, 0x093E, 0x092E],
        [0x092C, 0x093E, 0x0902, 0x0927, 0x0915, 0x093E, 0x092E]]\<rparr>,
     \<lparr>category = lit ''Showrooms / Commercial Establishments'',
      keywords =
       [lit ''showroom'', lit ''commercial'']\<rparr>,
     \<lparr>category = lit ''Public Parks / Institutions'',
      keywords =
       [[0x0909, 0x0926, 0x094D, 0x092F, 0x093E, 0x0928], lit ''park'', lit ''public area'',
        lit ''lake'', lit ''ambazari'']\<rparr>,
     \<lparr>category = lit ''Citizens / General Public'',
      keywords =
       [lit ''citizens'', lit ''people'', lit ''public'']\<rparr>,
     \<lparr>category = lit ''Unknown / Not Mentioned'',
      keywords =
       [lit ''unknown'',
        [0x092E, 0x093E, 0x0939, 0x093F, 0x0924, 0x0020, 0x0928, 0x093E, 0x0939, 0x0940],
        lit ''n'', lit ''all'', lit ''dont know'']\<rparr>,
     \<lparr>category = lit ''Nearby + Outside Combined'',
      keywords =
       [lit ''nearby households and people from outside'',
        [0x091C, 0x0935, 0x0933, 0x0020, 0x092A, 0x093E, 0x0938, 0x0020, 0x0932, 0x094B, 0x0915, 0x093E, 0x0902, 0x0928, 0x0940, 0x0020, 0x091F, 0x093E, 0x0915, 0x0924, 0x093E, 0x0924, 0x0020, 0x0906, 0x0923, 0x093F, 0x0020, 0x092C, 0x093E, 0x0939, 0x0947, 0x0930, 0x0942, 0x0928, 0x0020, 0x092F, 0x0947, 0x0923, 0x093E, 0x0930, 0x0947, 0x0020, 0x092A, 0x0923]]\<rparr>,
     \<lparr>category = lit ''Market / Vendor Community'',
      keywords =
       [lit ''market'', lit ''vendors'', lit ''stall'']\<rparr>]"

text \<open>
  \<open>categorize\<close> calls \<open>text.toLowerCase()\<close> on its argument as it is: that throws a
  TypeError for \<open>null\<close> and \<open>undefined\<close>, and for a number or boolean, which has no
  such method.
\<close>

definition categorize :: "(jsstring \<Rightarrow> jsstring) \<Rightarrow> jsval \<Rightarrow> js_error + jsstring" where
  "categorize toLowerCase text =
     (case text of
        JStr s \<Rightarrow>
          (let lowerText = trim (toLowerCase s)
           in case firstMatch toLowerCase categoryMap lowerText of
                Some c \<Rightarrow> Inr c
              | None \<Rightarrow> Inr (lit ''Unknown / Not Mentioned''))
      | _ \<Rightarrow> Inl TypeError)"

text \<open>\<open>const disposeValue = row["Who Dispose"] || ""\<close>\<close>

definition disposeValue :: "row \<Rightarrow> jsval" where
  "disposeValue r = js_or (field r (lit ''Who Dispose'')) (JStr [])"

definition whoDisposeRow :: "(jsstring \<Rightarrow> jsstring) \<Rightarrow> row \<Rightarrow> counter \<Rightarrow> js_error + counter" where
  "whoDisposeRow toLowerCase r counts =
     (case categorize toLowerCase (disposeValue r) of
        Inl e \<Rightarrow> Inl e
      | Inr c \<Rightarrow> Inr (bump counts c))"

text \<open>The object \<open>disposeCount\<close> after the scan, or the exception that ended it.\<close>

definition disposeCount :: "(jsstring \<Rightarrow> jsstring) \<Rightarrow> row list \<Rightarrow> js_error + counter" where
  "disposeCount toLowerCase data = forEach (whoDisposeRow toLowerCase) data []"

definition calculateWhoDisposeData ::
  "(jsstring \<Rightarrow> jsstring) \<Rightarrow> row list \<Rightarrow> js_error + dist_entry list" where
  "calculateWhoDisposeData toLowerCase data =
     (case disposeCount toLowerCase data of
        Inl e \<Rightarrow> Inl e
      | Inr counts \<Rightarrow>
          (let totalCount = totalOf counts
           in Inr (take 5 (sortDescending (percentages totalCount counts)))))"

definition locationMap :: "taxonomy_entry list" where
  "locationMap =
    [\<lparr>category = lit ''Residential Area'',
      keywords =
       [lit ''residential'', lit ''colony'', lit ''house'', lit ''society'']\<rparr>,
     \<lparr>category = lit ''Nallah / Drain'',
      keywords =
       [lit ''nallah'', lit ''drain'']\<rparr>,
     \<lparr>category = lit ''Market / Commercial Area'',
      keywords =
       [lit ''market_place'', lit ''market'', lit ''bazaar'', lit ''shop'']\<rparr>,
     \<lparr>category = lit ''Playground / Open Space'',
      keywords =
       [lit ''playground'', lit ''ground'', lit ''sports'', lit ''field'']\<rparr>,
     \<lparr>category = lit ''School / Institution'',
      keywords =
       [lit ''school'', lit ''college'', lit ''institution'']\<rparr>,
     \<lparr>category = lit ''Open Plot / Vacant Land'',
      keywords =
       [lit ''open_plot'', lit ''vacant'', lit ''empty plot'']\<rparr>,
     \<lparr>category = lit ''Roadside / Footpath / Public Path'',
      keywords =
       [lit ''road'', lit ''roadside'', lit ''road side'', lit ''footpath'', lit ''corner'',
        lit ''square'', lit ''front side'', lit ''temple'', lit ''collector office'',
        lit ''near sadar'', lit ''sem'']\<rparr>,
     \<lparr>category = lit ''Water Body / Lake Area'',
      keywords =
       [lit ''lake'', lit ''water'', lit ''pond'', [0x0928, 0x0926, 0x0940],
        [0x0932, 0x0947, 0x0915]]\<rparr>,
     \<lparr>category = lit ''Other / Miscellaneous'',
      keywords =
       [lit ''other'', lit ''unknown'', lit ''misc'']\<rparr>]"

text \<open>
  \<open>categorizeLocation\<close> replaces a falsy argument by \<open>""\<close> first, and compares with the
  keywords as they are written.
\<close>

definition categorizeLocation :: "(jsstring \<Rightarrow> jsstring) \<Rightarrow> jsval \<Rightarrow> js_error + jsstring" where
  "categorizeLocation toLowerCase text =
     (case js_or text (JStr []) of
        JStr s \<Rightarrow>
          (let lowerText = trim (toLowerCase s)
           in case firstMatch id locationMap lowerText of
                Some c \<Rightarrow> Inr c
              | None \<Rightarrow> Inr (lit ''Other / Miscellaneous''))
      | _ \<Rightarrow> Inl TypeError)"

text \<open>
  \<open>const settingValue =
     row["In_what_setting_is_the_GVP_pre"] || row["Location Type"] || row["other"] || ""\<close>
\<close>

definition settingValue :: "row \<Rightarrow> jsval" where
  "settingValue r =
     js_or (js_or (js_or (field r (lit ''In_what_setting_is_the_GVP_pre''))
                         (field r (lit ''Location Type'')))
                  (field r (lit ''other'')))
           (JStr [])"

definition settingRow :: "(jsstring \<Rightarrow> jsstring) \<Rightarrow> row \<Rightarrow> counter \<Rightarrow> js_error + counter" where
  "settingRow toLowerCase r counts =
     (case categorizeLocation toLowerCase (settingValue r) of
        Inl e \<Rightarrow> Inl e
      | Inr c \<Rightarrow> Inr (bump counts c))"

definition settingCount :: "(jsstring \<Rightarrow> jsstring) \<Rightarrow> row list \<Rightarrow> js_error + counter" where
  "settingCount toLowerCase data = forEach (settingRow toLowerCase) data []"

definition calculateSettingData ::
  "(jsstring \<Rightarrow> jsstring) \<Rightarrow> row list \<Rightarrow> js_error + dist_entry list" where
  "calculateSettingData toLowerCase data =
     (case settingCount toLowerCase data of
        Inl e \<Rightarrow> Inl e
      | Inr counts \<Rightarrow>
          (let totalCount = totalOf counts
           in Inr (take 5 (sortDescending (percentages totalCount counts)))))"

definition solutionCategories :: "taxonomy_entry list" where
  "solutionCategories =
    [\<lparr>category = lit ''Bins and Facilites'',
      keywords =
       [lit ''Dust bin at Roadside'', lit ''Should Punishment Fee'', lit ''More Bins'',
        lit ''Bins'', lit ''More bins'', lit ''More Bins Awareness Among People'',
        lit ''Dustbins'', lit ''Add a board '', lit ''Say to Use Of Dustbin'',
        lit ''Add Dustbin'', lit '' Bins Too'', lit '' Dustbins and Strictly Fine'',
        lit ''Bins and Facilities and strict fines'', lit ''Increasing of Dustbin'']\<rparr>,
     \<lparr>category = lit ''Technology-Enabled Monitoring'',
      keywords =
       [lit ''Fine and Surveillance Camera at that Place'',
        lit ''Surveillance Camera at that Place'', lit ''install camera on street.'',
        lit ''Should Camera Surveillance'']\<rparr>,
     \<lparr>category = lit ''Strict Enforcement Measures '',
      keywords =
       [lit ''Strict Fines'', lit ''strictly fine for people'', lit ''Strictly Fine'',
        lit ''strict fines'', lit ''and strictly fine for people'']\<rparr>,
     \<lparr>category = lit ''Public Awareness & Education '',
      keywords =
       [lit ''Awareness Program'', lit ''Awareness Among People'',
        lit ''More Bins Awareness Among People'']\<rparr>,
     \<lparr>category = lit ''Sanitization Vehicle Roster'',
      keywords =
       [lit ''Should Regular Visit of Cleaner Vans'']\<rparr>,
     \<lparr>category = lit ''Regulatory & Administrative Support'',
      keywords =
       [lit ''the NMC vehicle should collect this garbage from here .'']\<rparr>,
     \<lparr>category = lit ''Efficient Waste Collection System'',
      keywords =
       [lit ''Proper schedule for collection vehicle'',
        lit ''The Place Need to be get cleaned from the road side on daily basis.'']\<rparr>,
     \<lparr>category = lit ''Neutral Feedback'',
      keywords =
       [lit ''Nothing'']\<rparr>]"

text \<open>\<open>categorizeSolution\<close> returns \<open>null\<close> (here \<open>None\<close>) when no entry matches.\<close>

definition categorizeSolution ::
  "(jsstring \<Rightarrow> jsstring) \<Rightarrow> jsval \<Rightarrow> js_error + jsstring option" where
  "categorizeSolution toLowerCase text =
     (case js_or text (JStr []) of
        JStr s \<Rightarrow>
          (let lowerText = trim (toLowerCase s)
           in Inr (firstMatch toLowerCase solutionCategories lowerText))
      | _ \<Rightarrow> Inl TypeError)"

definition solutionColumns :: "jsstring list" where
  "solutionColumns =
    [lit ''Solution Suggested by Interviewee1'',
     lit ''Solution Suggested by Interviewee2'',
     lit ''Solution Suggested by Interviewee3'']"

text \<open>
  The body of \<open>columns.forEach\<close>. The guard
  \<open>solutionValue && solutionValue.trim() !== "" && solutionValue !== "N/A"\<close> skips a falsy
  value and throws on a truthy one that is not a string; \<open>if (category)\<close> skips \<open>null\<close>
  and the empty string.
\<close>

definition solutionColumn ::
  "(jsstring \<Rightarrow> jsstring) \<Rightarrow> row \<Rightarrow> jsstring \<Rightarrow> counter \<Rightarrow> js_error + counter" where
  "solutionColumn toLowerCase r col counts =
     (let solutionValue = field r col
      in if \<not> truthy solutionValue then Inr counts
         else case solutionValue of
                JStr s \<Rightarrow>
                  (if trim s \<noteq> [] \<and> s \<noteq> lit ''N/A''
                   then (case categorizeSolution toLowerCase solutionValue of
                           Inl e \<Rightarrow> Inl e
                         | Inr None \<Rightarrow> Inr counts
                         | Inr (Some c) \<Rightarrow>
                             (if c \<noteq> [] then Inr (bump counts c)
                              else Inr counts))
                   else Inr counts)
              | _ \<Rightarrow> Inl TypeError)"

definition solutionRow :: "(jsstring \<Rightarrow> jsstring) \<Rightarrow> row \<Rightarrow> counter \<Rightarrow> js_error + counter" where
  "solutionRow toLowerCase r counts =
     forEach (solutionColumn toLowerCase r) solutionColumns counts"

definition solutionCount0 :: counter where
  "solutionCount0 = fold (\<lambda>e acc. AList.update (category e) 0 acc) solutionCategories []"

definition solutionCount :: "(jsstring \<Rightarrow> jsstring) \<Rightarrow> row list \<Rightarrow> js_error + counter" where
  "solutionCount toLowerCase data = forEach (solutionRow toLowerCase) data solutionCount0"

definition calculateSolutionData ::
  "(jsstring \<Rightarrow> jsstring) \<Rightarrow> row list \<Rightarrow> js_error + dist_entry list" where
  "calculateSolutionData toLowerCase data =
     (case solutionCount toLowerCase data of
        Inl e \<Rightarrow> Inl e
      | Inr allData \<Rightarrow>
          (let totalCount = totalOf allData
           in if totalCount = 0
              then Inr (map (\<lambda>e. \<lparr>name = category e, value = fl (100 / 8)\<rparr>)
                          solutionCategories)
              else Inr (sortDescending (percentages totalCount allData))))"


text \<open>
  The keywords of a table are written in lower case already: \<open>toLowerCase\<close> returns each
  of them unchanged.
\<close>

definition keepsKeywords :: "(jsstring \<Rightarrow> jsstring) \<Rightarrow> taxonomy_entry list \<Rightarrow> bool" where
  "keepsKeywords toLowerCase tab =
     list_all (\<lambda>e. list_all (\<lambda>k. toLowerCase k = k) (keywords e)) tab"

section \<open>What a solution column contributes\<close>

text \<open>
  The category under which the value of one solution column is counted, if any: the
  value is a string, not empty after trimming, not the placeholder "N/A", and some entry
  of \<open>solutionCategories\<close> matches it. This is the description of the multi-column scan,
  to be compared with \<open>solutionRow\<close>.
\<close>

definition countedCategory :: "(jsstring \<Rightarrow> jsstring) \<Rightarrow> jsval \<Rightarrow> jsstring option" where
  "countedCategory toLowerCase v =
     (case v of
        JStr s \<Rightarrow>
          (if trim s \<noteq> [] \<and> s \<noteq> lit ''N/A''
           then firstMatch toLowerCase solutionCategories (trim (toLowerCase s))
           else None)
      | _ \<Rightarrow> None)"

text \<open>A value on which the scan does not throw: falsy, or a string.\<close>

definition textOrAbsent :: "jsval \<Rightarrow> bool" where
  "textOrAbsent v = (case v of JStr s \<Rightarrow> True | _ \<Rightarrow> \<not> truthy v)"

section \<open>Sample records\<close>

text \<open>A record with the single field "Who Dispose".\<close>

definition disposerRow :: "string \<Rightarrow> row" where
  "disposerRow s = [lit ''Who Dispose'' \<mapsto> JStr (lit s)]"

text \<open>Six records whose "Who Dispose" texts fall into six different categories.\<close>

definition sixDisposers :: "row list" where
  "sixDisposers =
     map disposerRow [''households'', ''shop'', ''visitor'', ''passing'', ''mixed'', ''repair'']"

text \<open>A record whose two waste-type flags are written as booleans.\<close>

definition booleanFlagsRow :: row where
  "booleanFlagsRow = [lit ''Clothes Waste'' \<mapsto> JBool True, lit ''Others'' \<mapsto> JBool True]"

text \<open>
  A record with two waste-type flags, one problem flag, one reason flag written as a
  boolean, a disposer, a location type, and the solution columns "More Bins", "N/A"
  and "".
\<close>

definition sampleRow :: row where
  "sampleRow = map_of
     [(lit ''Clothes Waste'', JNum 1),
      (lit ''Others'', JNum 1),
      (lit ''Organic and Wet Waste'', JNum 0),
      (lit ''Bad Odour'', JNum 1),
      (lit ''Due To User Fee'', JBool True),
      (lit ''Who Dispose'', JStr (lit ''shop'')),
      (lit ''Location Type'', JStr (lit ''Market'')),
      (lit ''Solution Suggested by Interviewee1'', JStr (lit ''More Bins'')),
      (lit ''Solution Suggested by Interviewee2'', JStr (lit ''N/A'')),
      (lit ''Solution Suggested by Interviewee3'', JStr [])]"

section \<open>Properties of the rounding\<close>

lemma fl_zero: "fl 0 = 0"
  by (simp add: fl_def split: prod.splits)








lemma normalise_down:
  assumes "2 ^ 52 \<le> m * 2 ^ k" and "m * 2 ^ k < 2 ^ 53" and "k \<le> n"
    and "2 ^ k * minUnit \<le> s"
  shows "normalise n m s = (m * 2 ^ k, s / 2 ^ k)"
  using assms
proof (induction k arbitrary: n m s)
  case 0
  then show ?case by (cases n) simp_all
next
  case (Suc k)
  from Suc.prems(3) obtain n' where n: "n = Suc n'" and kn: "k \<le> n'"
    by (cases n) simp_all
  have mu: "0 < minUnit" by (simp only: minUnit_def zero_less_divide_1_iff zero_less_power
        zero_less_numeral)
  have "(0::real) < 2 ^ 52" by simp
  with Suc.prems(1) have "0 < m * 2 ^ Suc k" by linarith
  then have m: "0 < m" by (simp add: zero_less_mult_iff)
  have "(1::real) \<le> 2 ^ k" by (rule one_le_power) simp
  then have "m * 2 * 1 \<le> m * 2 * 2 ^ k"
    using m by (intro mult_left_mono) simp_all
  with Suc.prems(2) have m53: "m * 2 < 2 ^ 53"
    by (simp add: mult.assoc)
  then have lt: "m < 2 ^ 52" by simp
  then have nge: "\<not> 2 ^ 53 \<le> m" by simp
  have "(1::real) < 2 ^ Suc k" by (rule one_less_power) simp_all
  then have "1 * minUnit < 2 ^ Suc k * minUnit"
    using mu by (intro mult_strict_right_mono)
  with Suc.prems(4) have s: "minUnit < s" by simp
  have "normalise n' (m * 2) (s / 2) = (m * 2 * 2 ^ k, s / 2 / 2 ^ k)"
  proof (rule Suc.IH)
    show "2 ^ 52 \<le> m * 2 * 2 ^ k" using Suc.prems(1) by (simp add: mult.assoc)
    show "m * 2 * 2 ^ k < 2 ^ 53" using Suc.prems(2) by (simp add: mult.assoc)
    show "k \<le> n'" by (rule kn)
    show "2 ^ k * minUnit \<le> s / 2" using Suc.prems(4) by simp
  qed
  with n lt nge s show ?case by (simp add: mult.assoc)
qed

lemma fl_down:
  assumes "0 < x" and "2 ^ 52 \<le> x * 2 ^ k" and "x * 2 ^ k < 2 ^ 53" and "k \<le> 1074"
  shows "fl x = of_int (roundHalfEven (x * 2 ^ k)) / 2 ^ k"
proof -
  have "(2::real) ^ k \<le> 2 ^ 1074"
    using assms(4) by (intro power_increasing) simp_all
  moreover have "(2::real) ^ 1074 * minUnit = 1"
    unfolding minUnit_def by (simp only: times_divide_eq_right mult_1_right
        divide_self power_not_zero zero_neq_numeral not_False_eq_True)
  moreover have "0 < minUnit" by (simp only: minUnit_def zero_less_divide_1_iff zero_less_power
        zero_less_numeral)
  ultimately have "2 ^ k * minUnit \<le> 1"
    by (metis mult_right_mono less_imp_le)
  with assms have "normalise 1074 x 1 = (x * 2 ^ k, 1 / 2 ^ k)"
    by (intro normalise_down)
  with assms(1) show ?thesis
    by (simp add: fl_def)
qed

lemma fl_values:
  "fl 1 = 1"
  "fl 100 = 100"
  "fl (100 / 8) = 12.5"
  "fl (1 / 6) = 6004799503160661 / 2 ^ 55"
  "fl (6004799503160661 / 2 ^ 55 * 100) = 4691249611844266 / 2 ^ 48"
proof -
  show "fl 1 = 1"
    by (subst fl_down [where k = 52]) (simp_all add: roundHalfEven_def)
  show "fl 100 = 100"
    by (subst fl_down [where k = 46]) (simp_all add: roundHalfEven_def)
  show "fl (100 / 8) = 12.5"
    by (subst fl_down [where k = 49]) (simp_all add: roundHalfEven_def)
  show "fl (1 / 6) = 6004799503160661 / 2 ^ 55"
    by (subst fl_down [where k = 55]) (simp_all add: roundHalfEven_def)
  show "fl (6004799503160661 / 2 ^ 55 * 100) = 4691249611844266 / 2 ^ 48"
    by (subst fl_down [where k = 48]) (simp_all add: roundHalfEven_def)
qed




lemma rounded_shares:
  "fl (fl 0 * 100) = 0"
  "fl (fl 1 * 100) = 100"
  "fl (fl (1 / 6) * 100) = 4691249611844266 / 2 ^ 48"
  by (simp_all only: fl_values fl_zero mult_zero_left mult_1)


lemma fl_eighth: "fl (25 / 2) = 25 / 2"
  using fl_values(3) by simp
section \<open>Properties of the string operations and of the classifier loop\<close>

lemma str_includes_sublist: "str_includes t k \<longleftrightarrow> sublist k t"
  by (induction t) (simp_all add: sublist_Cons_right)

lemma str_includes_trans:
  "str_includes t k \<Longrightarrow> str_includes k k' \<Longrightarrow> str_includes t k'"
  unfolding str_includes_sublist by (rule sublist_order.order_trans)

lemma firstMatch_skip:
  "\<forall>d\<in>set pre. \<not> someKeyword kw t d \<Longrightarrow> firstMatch kw (pre @ es) t = firstMatch kw es t"
  by (induction pre) simp_all

lemma firstMatch_hit:
  "\<forall>d\<in>set pre. \<not> someKeyword kw t d \<Longrightarrow> someKeyword kw t e \<Longrightarrow>
   firstMatch kw (pre @ e # post) t = Some (category e)"
  by (simp add: firstMatch_skip)

lemma firstMatch_None: "firstMatch kw es t = None \<longleftrightarrow> (\<forall>d\<in>set es. \<not> someKeyword kw t d)"
  by (induction es) simp_all

lemma firstMatch_category:
  "firstMatch kw es t = Some c \<Longrightarrow> c \<in> category ` set es"
  by (induction es) (auto split: if_splits)

lemma lit_eq_iff: "lit s = lit t \<longleftrightarrow> s = t"
proof -
  have "inj (of_char :: char \<Rightarrow> nat)"
    by (rule injI) simp
  then show ?thesis
    by (simp add: lit_def inj_map_eq_map)
qed

lemma lit_Nil_iff: "lit s = [] \<longleftrightarrow> s = []" "[] = lit s \<longleftrightarrow> s = []"
  by (auto simp add: lit_def)

lemma trim_empty: "trim [] = []"
  by (simp add: trim_def)

lemmas eval_text = lit_def toLowerCase_ascii_def trim_def isWhiteSpace_def someKeyword_def

section \<open>Properties of counters, percentages and sorting\<close>

lemma keys_bump:
  "map fst (bump m k) = (if k \<in> set (map fst m) then map fst m else map fst m @ [k])"
  by (simp add: bump_def update_keys)

lemma countOf_bump: "countOf (bump m k) k' = countOf m k' + (if k = k' then 1 else 0)"
  by (simp add: bump_def countOf_def update_conv')

lemma foldl_plus: "foldl (\<lambda>sum count. sum + count) a xs = a + sum_list xs" for a :: nat
  by (induction xs arbitrary: a) simp_all

lemma totalOf_sum: "totalOf m = sum_list (map snd m)"
  by (simp add: totalOf_def foldl_plus)

lemma sum_update:
  "sum_list (map snd (AList.update k v m)) + countOf m k = sum_list (map snd m) + v"
  by (induction m) (auto simp add: countOf_def)

lemma totalOf_bump: "totalOf (bump m k) = totalOf m + 1"
  using sum_update [of k "countOf m k + 1" m] by (simp add: totalOf_sum bump_def)

lemma name_percentages: "map name (percentages t m) = map fst m"
  by (induction m) (auto simp add: percentages_def)

lemma mset_sortDescending: "mset (sortDescending d) = mset d"
  by (simp add: sortDescending_def)


lemma length_sortDescending: "length (sortDescending d) = length d"
  by (simp add: sortDescending_def)

lemma set_sortDescending: "set (sortDescending d) = set d"
  by (simp add: sortDescending_def)





lemma sum_list_pos_real: "xs \<noteq> [] \<Longrightarrow> \<forall>x\<in>set xs. 0 < x \<Longrightarrow> 0 < sum_list xs" for xs :: "real list"
  by (induction xs) (auto intro: add_pos_nonneg sum_list_nonneg less_imp_le)

lemma forEach_invariant:
  assumes "forEach body xs s = Inr s'" and "P s"
    and "\<And>x t t'. P t \<Longrightarrow> body x t = Inr t' \<Longrightarrow> P t'"
  shows "P s'"
  using assms(1,2)
proof (induction xs arbitrary: s)
  case Nil
  then show ?case by simp
next
  case (Cons x xs)
  then show ?case
    by (auto split: sum.splits intro: assms(3))
qed









section \<open>Rounding errors of the shares\<close>














lemma sorted_sortDescending: "sorted_wrt (\<lambda>a b. value b \<le> value a) (sortDescending xs)"
proof -
  have "sorted (map (\<lambda>e. - value e) (sortDescending xs))"
    unfolding sortDescending_def by (rule sorted_sort_key)
  then show ?thesis
    by (simp add: sorted_wrt_map)
qed



section \<open>The aggregations on the sample records\<close>

lemma field_sampleRow:
  "field sampleRow (lit ''other'') = JUndefined"
  "field sampleRow (lit ''Clothes Waste'') = JNum 1"
  "field sampleRow (lit ''Others'') = JNum 1"
  "field sampleRow (lit ''Organic and Wet Waste'') = JNum 0"
  "field sampleRow (lit ''Plastic Paper Glass Waste'') = JUndefined"
  "field sampleRow (lit ''Sanitary and Hazardous Waste'') = JUndefined"
  "field sampleRow (lit ''Battery and Bulb Waste'') = JUndefined"
  "field sampleRow (lit ''Construction and Demolition Waste'') = JUndefined"
  "field sampleRow (lit ''Carcasses Waste'') = JUndefined"
  "field sampleRow (lit ''Bad Odour'') = JNum 1"
  "field sampleRow (lit ''Mosquitos'') = JUndefined"
  "field sampleRow (lit ''Stray Animals'') = JUndefined"
  "field sampleRow (lit ''Congestion'') = JUndefined"
  "field sampleRow (lit ''Other'') = JUndefined"
  "field sampleRow (lit ''No Regular Collection Vehicle'') = JUndefined"
  "field sampleRow (lit ''Random People Throwing Garbage'') = JUndefined"
  "field sampleRow (lit ''Due To User Fee'') = JBool True"
  "field sampleRow (lit ''Mismatch of Vehicle Time'') = JUndefined"
  "field sampleRow (lit ''Due to Narrow Road'') = JUndefined"
  "field sampleRow (lit ''Because of Market and Street Vendors'') = JUndefined"
  "field sampleRow (lit ''Who Dispose'') = JStr (lit ''shop'')"
  "field sampleRow (lit ''In_what_setting_is_the_GVP_pre'') = JUndefined"
  "field sampleRow (lit ''Location Type'') = JStr (lit ''Market'')"
  "field sampleRow (lit ''Solution Suggested by Interviewee1'') = JStr (lit ''More Bins'')"
  "field sampleRow (lit ''Solution Suggested by Interviewee2'') = JStr (lit ''N/A'')"
  "field sampleRow (lit ''Solution Suggested by Interviewee3'') = JStr []"
  by (simp_all add: field_def sampleRow_def lit_eq_iff)



lemma wasteTypeCounts_sample:
  "wasteTypeCounts [sampleRow] =
    [(lit ''Organic & Wet'', 0), (lit ''Plastic Paper'', 0), (lit ''Sanitary & Hazardous'', 0),
     (lit ''Battery & Bulb'', 0), (lit ''Construction & Demolition'', 0),
     (lit ''Clothes'', 1), (lit ''Carcasses'', 0), (lit ''Others'', 1)]"
  by (simp add: wasteTypeCounts_def wasteTypeRow_def wasteTypeToColumnMap_def field_sampleRow
        bump_def countOf_def lit_eq_iff)

lemma sample_categories:
  "categorize toLowerCase_ascii (JStr (lit ''shop'')) = Inr (lit ''Vendors / Small Stalls'')"
  "categorizeLocation toLowerCase_ascii (JStr (lit ''Market''))
     = Inr (lit ''Market / Commercial Area'')"
  "categorizeSolution toLowerCase_ascii (JStr (lit ''More Bins''))
     = Inr (Some (lit ''Bins and Facilites''))"
  by (simp_all add: categorize_def categorizeLocation_def categorizeSolution_def js_or_def
        categoryMap_def locationMap_def solutionCategories_def eval_text)

lemma disposeCount_sample:
  "disposeCount toLowerCase_ascii [sampleRow] = Inr [(lit ''Vendors / Small Stalls'', 1)]"
  by (simp add: disposeCount_def whoDisposeRow_def disposeValue_def field_sampleRow js_or_def lit_eq_iff
        lit_Nil_iff sample_categories bump_def countOf_def)

lemma settingCount_sample:
  "settingCount toLowerCase_ascii [sampleRow] = Inr [(lit ''Market / Commercial Area'', 1)]"
  by (simp add: settingCount_def settingRow_def settingValue_def field_sampleRow js_or_def lit_eq_iff
        lit_Nil_iff sample_categories bump_def countOf_def)

lemma solutionCount0_eval:
  "solutionCount0 =
     [(lit ''Bins and Facilites'', 0), (lit ''Technology-Enabled Monitoring'', 0),
      (lit ''Strict Enforcement Measures '', 0), (lit ''Public Awareness & Education '', 0),
      (lit ''Sanitization Vehicle Roster'', 0), (lit ''Regulatory & Administrative Support'', 0),
      (lit ''Efficient Waste Collection System'', 0), (lit ''Neutral Feedback'', 0)]"
  by (simp add: solutionCount0_def solutionCategories_def lit_eq_iff)

lemma trim_N_A: "trim (lit ''More Bins'') \<noteq> []" "lit ''More Bins'' \<noteq> lit ''N/A''"
  "lit ''Bins and Facilites'' \<noteq> []"
  by (simp_all add: eval_text)

lemma solutionRow_sample:
  "solutionRow toLowerCase_ascii sampleRow solutionCount0 =
     Inr [(lit ''Bins and Facilites'', 1), (lit ''Technology-Enabled Monitoring'', 0),
      (lit ''Strict Enforcement Measures '', 0), (lit ''Public Awareness & Education '', 0),
      (lit ''Sanitization Vehicle Roster'', 0), (lit ''Regulatory & Administrative Support'', 0),
      (lit ''Efficient Waste Collection System'', 0), (lit ''Neutral Feedback'', 0)]"
  by (simp add: solutionRow_def solutionColumns_def solutionColumn_def field_sampleRow Let_def
        sample_categories trim_N_A lit_eq_iff lit_Nil_iff solutionCount0_eval bump_def
        countOf_def)


lemma six_categories:
  "categorize toLowerCase_ascii (JStr (lit ''households'')) = Inr (lit ''Nearby Households'')"
  "categorize toLowerCase_ascii (JStr (lit ''shop'')) = Inr (lit ''Vendors / Small Stalls'')"
  "categorize toLowerCase_ascii (JStr (lit ''visitor'')) = Inr (lit ''People from Outside'')"
  "categorize toLowerCase_ascii (JStr (lit ''passing''))
     = Inr (lit ''Passing Crowd / Vehicle People'')"
  "categorize toLowerCase_ascii (JStr (lit ''mixed'')) = Inr (lit ''Households and Vendors Mixed'')"
  "categorize toLowerCase_ascii (JStr (lit ''repair'')) = Inr (lit ''Construction Waste'')"
  by (simp_all add: categorize_def categoryMap_def eval_text)

lemma whoDisposeRow_disposerRow:
  "s \<noteq> [] \<Longrightarrow> whoDisposeRow lc (disposerRow s) counts =
     (case categorize lc (JStr (lit s)) of Inl e \<Rightarrow> Inl e | Inr c \<Rightarrow> Inr (bump counts c))"
  by (simp add: whoDisposeRow_def disposeValue_def disposerRow_def field_def js_or_def lit_def)

lemma disposeCount_six:
  "disposeCount toLowerCase_ascii sixDisposers =
     Inr [(lit ''Nearby Households'', 1), (lit ''Vendors / Small Stalls'', 1),
          (lit ''People from Outside'', 1), (lit ''Passing Crowd / Vehicle People'', 1),
          (lit ''Households and Vendors Mixed'', 1), (lit ''Construction Waste'', 1)]"
  by (simp add: disposeCount_def sixDisposers_def whoDisposeRow_disposerRow six_categories
        bump_def countOf_def lit_eq_iff)

lemma calculateWhoDisposeData_six:
  "calculateWhoDisposeData toLowerCase_ascii sixDisposers =
     Inr [\<lparr>name = lit ''Nearby Households'', value = 4691249611844266 / 2 ^ 48\<rparr>,
          \<lparr>name = lit ''Vendors / Small Stalls'', value = 4691249611844266 / 2 ^ 48\<rparr>,
          \<lparr>name = lit ''People from Outside'', value = 4691249611844266 / 2 ^ 48\<rparr>,
          \<lparr>name = lit ''Passing Crowd / Vehicle People'', value = 4691249611844266 / 2 ^ 48\<rparr>,
          \<lparr>name = lit ''Households and Vendors Mixed'', value = 4691249611844266 / 2 ^ 48\<rparr>]"
  by (simp add: calculateWhoDisposeData_def disposeCount_six totalOf_def percentages_def
        rounded_shares sortDescending_def)

section \<open>The categories held by the counters\<close>

lemma keys_fold_bump:
  "set ks \<subseteq> set (map fst c) \<Longrightarrow>
   map fst (fold (\<lambda>k c. if P k then bump c k else c) ks c) = map fst c"
proof (induction ks arbitrary: c)
  case Nil
  then show ?case by simp
next
  case (Cons k ks)
  have kb: "map fst (bump c k) = map fst c"
    using Cons.prems by (simp add: keys_bump)
  show ?case
  proof (cases "P k")
    case True
    have "map fst (fold (\<lambda>k c. if P k then bump c k else c) ks (bump c k)) = map fst (bump c k)"
      by (rule Cons.IH) (use Cons.prems kb in simp)
    with True kb show ?thesis by simp
  next
    case False
    with Cons show ?thesis by simp
  qed
qed

lemma keys_problemsRow: "map fst (problemsRow r c) = map fst c"
  unfolding problemsRow_def by (rule keys_fold_bump) simp

lemma keys_reasonsRow: "map fst (reasonsRow r c) = map fst c"
  unfolding reasonsRow_def by (rule keys_fold_bump) simp

lemma keys_problemsCount: "map fst (problemsCount data) = map fst problemsCount0"
proof -
  have "map fst (fold problemsRow data c) = map fst c" for c
    by (induction data arbitrary: c) (simp_all add: keys_problemsRow)
  then show ?thesis by (simp add: problemsCount_def)
qed

lemma keys_reasonsCount: "map fst (reasonsCount data) = map fst reasonsCount0"
proof -
  have "map fst (fold reasonsRow data c) = map fst c" for c
    by (induction data arbitrary: c) (simp_all add: keys_reasonsRow)
  then show ?thesis by (simp add: reasonsCount_def)
qed

lemma names_sorted_percentages:
  "mset (map name (sortDescending (percentages t m))) = mset (map fst m)"
proof -
  have "mset (map name (sortDescending (percentages t m))) = mset (map name (percentages t m))"
    by (simp only: mset_map mset_sortDescending)
  then show ?thesis by (simp only: name_percentages)
qed

lemma countOf_wasteTypeRow_gen:
  "countOf (fold (\<lambda>(type, column) c. if field r column = JNum 1 then bump c type else c) xs c) k
     = countOf c k + length (filter (\<lambda>(type, column). type = k \<and> field r column = JNum 1) xs)"
proof (induction xs arbitrary: c)
  case Nil
  then show ?case by simp
next
  case (Cons p xs)
  obtain t col where p: "p = (t, col)" by (cases p)
  show ?case
    by (cases "field r col = JNum 1") (simp_all add: Cons.IH countOf_bump p)
qed

lemma keys_wasteTypeRow_gen:
  "fst ` set xs \<subseteq> set (map fst c) \<Longrightarrow>
   map fst (fold (\<lambda>(type, column) c. if field r column = JNum 1 then bump c type else c) xs c)
     = map fst c"
proof (induction xs arbitrary: c)
  case Nil
  then show ?case by simp
next
  case (Cons p xs)
  obtain t col where p: "p = (t, col)" by (cases p)
  have kb: "map fst (bump c t) = map fst c"
    using Cons.prems p by (simp add: keys_bump)
  show ?case
  proof (cases "field r col = JNum 1")
    case True
    have "map fst (fold (\<lambda>(type, column) c. if field r column = JNum 1 then bump c type else c)
                     xs (bump c t)) = map fst (bump c t)"
      by (rule Cons.IH) (use Cons.prems kb in simp)
    with True kb p show ?thesis by simp
  next
    case False
    with Cons p show ?thesis by simp
  qed
qed

lemma wasteTypeCounts0:
  "fold (\<lambda>type c. AList.update type 0 c) (map fst wasteTypeToColumnMap) []
     = map (\<lambda>(type, column). (type, 0)) wasteTypeToColumnMap"
  by (simp add: wasteTypeToColumnMap_def lit_eq_iff)

lemma countOf_zeros: "countOf (map (\<lambda>(type, column). (type, 0)) xs) k = 0"
  by (induction xs) (auto simp add: countOf_def)

lemma countOf_wasteTypeCounts_gen:
  "countOf (fold wasteTypeRow data c) k
     = countOf c k + (\<Sum>r\<leftarrow>data. length (filter (\<lambda>(type, column). type = k \<and> field r column = JNum 1)
                                             wasteTypeToColumnMap))"
  by (induction data arbitrary: c) (simp_all add: wasteTypeRow_def countOf_wasteTypeRow_gen)

lemma keys_wasteTypeRow:
  "fst ` set wasteTypeToColumnMap \<subseteq> set (map fst c) \<Longrightarrow>
   map fst (wasteTypeRow r c) = map fst c"
  unfolding wasteTypeRow_def by (rule keys_wasteTypeRow_gen)

lemma keys_fold_wasteTypeRow:
  "fst ` set wasteTypeToColumnMap \<subseteq> set (map fst c) \<Longrightarrow>
   map fst (fold wasteTypeRow data c) = map fst c"
proof (induction data arbitrary: c)
  case Nil
  then show ?case by simp
next
  case (Cons r data)
  have k: "map fst (wasteTypeRow r c) = map fst c"
    using Cons.prems by (rule keys_wasteTypeRow)
  have "map fst (fold wasteTypeRow data (wasteTypeRow r c)) = map fst (wasteTypeRow r c)"
    by (rule Cons.IH) (use Cons.prems k in simp)
  with k show ?case by simp
qed

lemma keys_wasteTypeCounts: "map fst (wasteTypeCounts data) = map fst wasteTypeToColumnMap"
proof -
  have "map fst (map (\<lambda>(type, column). (type, 0::nat)) wasteTypeToColumnMap)
                   = map fst wasteTypeToColumnMap"
    by (simp add: comp_def split_def)
  then show ?thesis
    by (simp add: wasteTypeCounts_def wasteTypeCounts0 keys_fold_wasteTypeRow)
qed

lemma sum_list_positive_iff: "0 < (\<Sum>x\<leftarrow>xs. f x) \<longleftrightarrow> (\<exists>x\<in>set xs. 0 < f x)"
  for f :: "'a \<Rightarrow> nat"
  by (induction xs) auto

lemma positive_wasteTypeCounts:
  "0 < countOf (wasteTypeCounts data) k \<longleftrightarrow>
     (\<exists>r\<in>set data. \<exists>(type, column)\<in>set wasteTypeToColumnMap. type = k \<and> field r column = JNum 1)"
proof -
  have "0 < countOf (wasteTypeCounts data) k \<longleftrightarrow>
        (\<exists>r\<in>set data. filter (\<lambda>(type, column). type = k \<and> field r column = JNum 1)
                           wasteTypeToColumnMap \<noteq> [])"
    by (simp add: wasteTypeCounts_def wasteTypeCounts0 countOf_wasteTypeCounts_gen countOf_zeros
          sum_list_positive_iff)
  also have "\<dots> \<longleftrightarrow> (\<exists>r\<in>set data. \<exists>(type, column)\<in>set wasteTypeToColumnMap.
                          type = k \<and> field r column = JNum 1)"
    by (auto simp add: filter_empty_conv)
  finally show ?thesis .
qed

lemma distinct_types: "distinct (map fst wasteTypeToColumnMap)"
  by (simp add: wasteTypeToColumnMap_def lit_eq_iff)


lemma names_positive_counts:
  "map name (calculateWasteTypeCounts data)
     = filter (\<lambda>type. 0 < countOf (wasteTypeCounts data) type) (map fst wasteTypeToColumnMap)"
  by (simp add: calculateWasteTypeCounts_def Let_def comp_def keys_wasteTypeCounts)

lemma names_wasteTypeCounts:
  "map name (calculateWasteTypeCounts data) =
     map fst (filter (\<lambda>(type, column). \<exists>r\<in>set data. field r column = JNum 1)
                wasteTypeToColumnMap)"
proof -
  let ?c = "wasteTypeCounts data"
  have "map name (calculateWasteTypeCounts data)
          = filter (\<lambda>k. 0 < countOf ?c k) (map fst wasteTypeToColumnMap)"
    by (rule names_positive_counts)
  also have "\<dots> = map fst (filter (\<lambda>p. 0 < countOf ?c (fst p)) wasteTypeToColumnMap)"
    by (simp add: filter_map comp_def)
  also have "filter (\<lambda>p. 0 < countOf ?c (fst p)) wasteTypeToColumnMap
               = filter (\<lambda>(type, column). \<exists>r\<in>set data. field r column = JNum 1)
                   wasteTypeToColumnMap"
  proof (rule filter_cong [OF refl])
    fix p assume m: "p \<in> set wasteTypeToColumnMap"
    obtain t c where p: "p = (t, c)" by (cases p)
    from m p have tc: "(t, c) \<in> set wasteTypeToColumnMap" by simp
    have "(0 < countOf ?c t) = (\<exists>r\<in>set data. field r c = JNum 1)"
    proof
      assume "0 < countOf ?c t"
      then obtain r c' where r: "r \<in> set data" and c': "(t, c') \<in> set wasteTypeToColumnMap"
        and f: "field r c' = JNum 1"
        unfolding positive_wasteTypeCounts by blast
      from distinct_types c' tc have "c' = c"
        by (rule eq_key_imp_eq_value)
      with r f show "\<exists>r\<in>set data. field r c = JNum 1" by blast
    next
      assume "\<exists>r\<in>set data. field r c = JNum 1"
      with tc show "0 < countOf ?c t"
        unfolding positive_wasteTypeCounts by blast
    qed
    with p show "(0 < countOf ?c (fst p))
        = (case p of (type, column) \<Rightarrow> \<exists>r\<in>set data. field r column = JNum 1)"
      by simp
  qed
  finally show ?thesis .
qed

lemma forEach_invariant_mem:
  assumes "forEach body xs s = Inr s'" and "P s" and "set xs \<subseteq> A"
    and "\<And>x t t'. x \<in> A \<Longrightarrow> P t \<Longrightarrow> body x t = Inr t' \<Longrightarrow> P t'"
  shows "P s'"
  using assms(1,2,3)
proof (induction xs arbitrary: s)
  case Nil
  then show ?case by simp
next
  case (Cons x xs)
  from Cons.prems(1) obtain t where b: "body x s = Inr t" and f: "forEach body xs t = Inr s'"
    by (auto split: sum.splits)
  from Cons.prems(3) have "x \<in> A" by simp
  then have "P t" using Cons.prems(2) b by (rule assms(4))
  with f Cons.prems(3) show ?case
    by (intro Cons.IH) simp_all
qed

lemma keys_disposeCount:
  assumes "disposeCount lc data = Inr m"
  shows "\<forall>k\<in>set (map fst m). \<exists>r\<in>set data. categorize lc (disposeValue r) = Inr k"
proof (rule forEach_invariant_mem
    [where P = "\<lambda>t. \<forall>k\<in>set (map fst t). \<exists>r\<in>set data. categorize lc (disposeValue r) = Inr k"
       and A = "set data"])
  show "forEach (whoDisposeRow lc) data [] = Inr m"
    using assms by (simp add: disposeCount_def)
  show "\<forall>k\<in>set (map fst ([] :: counter)). \<exists>r\<in>set data. categorize lc (disposeValue r) = Inr k"
    by simp
  show "set data \<subseteq> set data"
    by simp
next
  fix x t t'
  assume x: "x \<in> set data"
    and t: "\<forall>k\<in>set (map fst t). \<exists>r\<in>set data. categorize lc (disposeValue r) = Inr k"
    and b: "whoDisposeRow lc x t = Inr t'"
  from b obtain c where c: "categorize lc (disposeValue x) = Inr c" and t': "t' = bump t c"
    by (auto simp add: whoDisposeRow_def split: sum.splits)
  have "set (map fst t') \<subseteq> insert c (set (map fst t))"
    by (auto simp add: t' keys_bump)
  with x t c show "\<forall>k\<in>set (map fst t'). \<exists>r\<in>set data. categorize lc (disposeValue r) = Inr k"
    by blast
qed

lemma keys_settingCount:
  assumes "settingCount lc data = Inr m"
  shows "\<forall>k\<in>set (map fst m). \<exists>r\<in>set data. categorizeLocation lc (settingValue r) = Inr k"
proof (rule forEach_invariant_mem
    [where P = "\<lambda>t. \<forall>k\<in>set (map fst t). \<exists>r\<in>set data. categorizeLocation lc (settingValue r) = Inr k"
       and A = "set data"])
  show "forEach (settingRow lc) data [] = Inr m"
    using assms by (simp add: settingCount_def)
  show "\<forall>k\<in>set (map fst ([] :: counter)).
          \<exists>r\<in>set data. categorizeLocation lc (settingValue r) = Inr k"
    by simp
  show "set data \<subseteq> set data"
    by simp
next
  fix x t t'
  assume x: "x \<in> set data"
    and t: "\<forall>k\<in>set (map fst t). \<exists>r\<in>set data. categorizeLocation lc (settingValue r) = Inr k"
    and b: "settingRow lc x t = Inr t'"
  from b obtain c where c: "categorizeLocation lc (settingValue x) = Inr c" and t': "t' = bump t c"
    by (auto simp add: settingRow_def split: sum.splits)
  have "set (map fst t') \<subseteq> insert c (set (map fst t))"
    by (auto simp add: t' keys_bump)
  with x t c show "\<forall>k\<in>set (map fst t'). \<exists>r\<in>set data. categorizeLocation lc (settingValue r) = Inr k"
    by blast
qed

lemma names_top5:
  "e \<in> set (take 5 (sortDescending (percentages t m))) \<Longrightarrow> name e \<in> set (map fst m)"
proof -
  assume "e \<in> set (take 5 (sortDescending (percentages t m)))"
  then have "e \<in> set (percentages t m)"
    using set_sortDescending by (blast dest: in_set_takeD)
  then have "name e \<in> set (map name (percentages t m))"
    by simp
  then show ?thesis
    by (simp only: name_percentages)
qed

lemma keys_solutionColumn:
  assumes "map fst t = map category solutionCategories"
    and "solutionColumn lc r col t = Inr t'"
  shows "map fst t' = map category solutionCategories"
proof -
  from assms(2) have "t' = t \<or> (\<exists>c v. categorizeSolution lc v = Inr (Some c) \<and> t' = bump t c)"
    by (auto simp add: solutionColumn_def Let_def split: if_splits jsval.splits sum.splits option.splits)
  then show ?thesis
  proof
    assume "t' = t"
    with assms(1) show ?thesis by simp
  next
    assume "\<exists>c v. categorizeSolution lc v = Inr (Some c) \<and> t' = bump t c"
    then obtain c v where cs: "categorizeSolution lc v = Inr (Some c)" and t': "t' = bump t c"
      by blast
    from cs obtain s where "firstMatch lc solutionCategories s = Some c"
      by (auto simp add: categorizeSolution_def Let_def split: jsval.splits)
    then have "c \<in> category ` set solutionCategories"
      by (rule firstMatch_category)
    then have "c \<in> set (map fst t)"
      by (simp add: assms(1))
    with assms(1) t' show ?thesis
      by (simp add: keys_bump)
  qed
qed

lemma keys_solutionRow:
  assumes "map fst t = map category solutionCategories"
    and "solutionRow lc r t = Inr t'"
  shows "map fst t' = map category solutionCategories"
proof (rule forEach_invariant [where P = "\<lambda>t. map fst t = map category solutionCategories"])
  show "forEach (solutionColumn lc r) solutionColumns t = Inr t'"
    using assms(2) by (simp add: solutionRow_def)
  show "map fst t = map category solutionCategories"
    by (rule assms(1))
next
  fix x u u'
  assume "map fst u = map category solutionCategories" and "solutionColumn lc r x u = Inr u'"
  then show "map fst u' = map category solutionCategories"
    by (rule keys_solutionColumn)
qed

lemma keys_solutionCount0: "map fst solutionCount0 = map category solutionCategories"
  by (simp add: solutionCount0_eval) (simp add: solutionCategories_def)

lemma keys_solutionCount:
  assumes "solutionCount lc data = Inr m"
  shows "map fst m = map category solutionCategories"
proof (rule forEach_invariant [where P = "\<lambda>t. map fst t = map category solutionCategories"])
  show "forEach (solutionRow lc) data solutionCount0 = Inr m"
    using assms by (simp add: solutionCount_def)
  show "map fst solutionCount0 = map category solutionCategories"
    by (rule keys_solutionCount0)
next
  fix x u u'
  assume "map fst u = map category solutionCategories" and "solutionRow lc x u = Inr u'"
  then show "map fst u' = map category solutionCategories"
    by (rule keys_solutionRow)
qed


lemma distinct_bump: "distinct (map fst m) \<Longrightarrow> distinct (map fst (bump m k))"
  by (simp add: bump_def distinct_update)

lemma forEach_classify:
  assumes "forEach (\<lambda>r counts. case f r of Inl e \<Rightarrow> Inl e | Inr c \<Rightarrow> Inr (bump counts c))
             data m0 = Inr m"
  shows "countOf m k = countOf m0 k + length (filter (\<lambda>r. f r = Inr k) data)"
    and "set (map fst m) = set (map fst m0) \<union> {c. \<exists>r\<in>set data. f r = Inr c}"
    and "distinct (map fst m0) \<Longrightarrow> distinct (map fst m)"
  using assms
proof (induction data arbitrary: m0)
  case Nil
  {
    case 1 then show ?case by simp
  next
    case 2 then show ?case by simp
  next
    case 3 then show ?case by simp
  }
next
  case (Cons r data)
  {
    case 1
    then obtain c where c: "f r = Inr c"
      and rest: "forEach (\<lambda>r counts. case f r of Inl e \<Rightarrow> Inl e | Inr c \<Rightarrow> Inr (bump counts c))
             data (bump m0 c) = Inr m"
      by (auto split: sum.splits)
    from Cons.IH(1) [OF rest] c show ?case
      by (auto simp add: countOf_bump)
  next
    case 2
    then obtain c where c: "f r = Inr c"
      and rest: "forEach (\<lambda>r counts. case f r of Inl e \<Rightarrow> Inl e | Inr c \<Rightarrow> Inr (bump counts c))
             data (bump m0 c) = Inr m"
      by (auto split: sum.splits)
    have "set (map fst (bump m0 c)) = insert c (set (map fst m0))"
      by (auto simp add: keys_bump)
    with Cons.IH(2) [OF rest] c show ?case
      by auto
  next
    case 3
    then obtain c where c: "f r = Inr c"
      and rest: "forEach (\<lambda>r counts. case f r of Inl e \<Rightarrow> Inl e | Inr c \<Rightarrow> Inr (bump counts c))
             data (bump m0 c) = Inr m"
      by (auto split: sum.splits)
    from "3"(1) have "distinct (map fst (bump m0 c))" by (rule distinct_bump)
    with Cons.IH(3) [OF _ rest] show ?case .
  }
qed

lemma disposeCount_classified:
  assumes "disposeCount lc data = Inr m"
  shows "countOf m k = length (filter (\<lambda>r. categorize lc (disposeValue r) = Inr k) data)"
    and "set (map fst m) = {c. \<exists>r\<in>set data. categorize lc (disposeValue r) = Inr c}"
    and "distinct (map fst m)"
proof -
  have w: "whoDisposeRow lc = (\<lambda>r counts. case categorize lc (disposeValue r) of
              Inl e \<Rightarrow> Inl e | Inr c \<Rightarrow> Inr (bump counts c))"
    by (intro ext) (simp add: whoDisposeRow_def)
  from assms have f: "forEach (\<lambda>r counts. case categorize lc (disposeValue r) of
              Inl e \<Rightarrow> Inl e | Inr c \<Rightarrow> Inr (bump counts c)) data [] = Inr m"
    by (simp add: disposeCount_def w)
  from forEach_classify(1) [OF f, of k]
  show "countOf m k = length (filter (\<lambda>r. categorize lc (disposeValue r) = Inr k) data)"
    by (simp add: countOf_def)
  from forEach_classify(2) [OF f]
  show "set (map fst m) = {c. \<exists>r\<in>set data. categorize lc (disposeValue r) = Inr c}"
    by simp
  from forEach_classify(3) [OF f] show "distinct (map fst m)"
    by simp
qed

lemma settingCount_classified:
  assumes "settingCount lc data = Inr m"
  shows "countOf m k = length (filter (\<lambda>r. categorizeLocation lc (settingValue r) = Inr k) data)"
    and "set (map fst m) = {c. \<exists>r\<in>set data. categorizeLocation lc (settingValue r) = Inr c}"
    and "distinct (map fst m)"
proof -
  have w: "settingRow lc = (\<lambda>r counts. case categorizeLocation lc (settingValue r) of
              Inl e \<Rightarrow> Inl e | Inr c \<Rightarrow> Inr (bump counts c))"
    by (intro ext) (simp add: settingRow_def)
  from assms have f: "forEach (\<lambda>r counts. case categorizeLocation lc (settingValue r) of
              Inl e \<Rightarrow> Inl e | Inr c \<Rightarrow> Inr (bump counts c)) data [] = Inr m"
    by (simp add: settingCount_def w)
  from forEach_classify(1) [OF f, of k]
  show "countOf m k = length (filter (\<lambda>r. categorizeLocation lc (settingValue r) = Inr k) data)"
    by (simp add: countOf_def)
  from forEach_classify(2) [OF f]
  show "set (map fst m) = {c. \<exists>r\<in>set data. categorizeLocation lc (settingValue r) = Inr c}"
    by simp
  from forEach_classify(3) [OF f] show "distinct (map fst m)"
    by simp
qed

lemma top5_characterised:
  "\<exists>s. mset s = mset xs \<and> sorted_wrt (\<lambda>a b. value b \<le> value a) s
       \<and> take 5 (sortDescending xs) = take 5 s"
  using mset_sortDescending sorted_sortDescending by blast



lemma forEach_counts_rows:
  assumes "forEach (\<lambda>r counts. case f r of Inl e \<Rightarrow> Inl e | Inr c \<Rightarrow> Inr (bump counts c))
             data m0 = Inr m"
  shows "totalOf m = totalOf m0 + length data"
  using assms
proof (induction data arbitrary: m0)
  case Nil
  then show ?case by simp
next
  case (Cons r data)
  then obtain c where c: "f r = Inr c"
    and rest: "forEach (\<lambda>r counts. case f r of Inl e \<Rightarrow> Inl e | Inr c \<Rightarrow> Inr (bump counts c))
             data (bump m0 c) = Inr m"
    by (auto split: sum.splits)
  from Cons.IH [OF rest] show ?case
    by (simp add: totalOf_bump)
qed

lemma entry_percentages:
  assumes e: "e \<in> set (percentages t m)" and d: "distinct (map fst m)"
  shows "value e = (if t > 0 then fl (fl (real (countOf m (name e)) / real t) * 100) else 0)"
proof -
  from e obtain k c where kc: "(k, c) \<in> set m"
    and v: "e = \<lparr>name = k,
                 value = (if t > 0 then fl (fl (real c / real t) * 100) else 0)\<rparr>"
    by (auto simp add: percentages_def)
  from d kc have "map_of m k = Some c"
    by simp
  then have "countOf m k = c"
    by (simp add: countOf_def)
  with v show ?thesis
    by simp
qed

lemma classified_shares:
  assumes f: "forEach (\<lambda>r counts. case f r of Inl e \<Rightarrow> Inl e | Inr c \<Rightarrow> Inr (bump counts c))
             data [] = Inr m"
  shows "\<exists>shares. distinct (map name shares)
     \<and> set (map name shares) = {c. \<exists>r\<in>set data. f r = Inr c}
     \<and> (\<forall>e\<in>set shares. value e
           = fl (fl (real (length (filter (\<lambda>r. f r = Inr (name e)) data)) / real (length data))
                 * 100))
     \<and> sorted_wrt (\<lambda>a b. value b \<le> value a) shares
     \<and> take 5 (sortDescending (percentages (totalOf m) m)) = take 5 shares
     \<and> length shares = card {c. \<exists>r\<in>set data. f r = Inr c}"
proof -
  let ?shares = "sortDescending (percentages (totalOf m) m)"
  have count: "countOf m k = length (filter (\<lambda>r. f r = Inr k) data)" for k
    using forEach_classify(1) [OF f, of k] by (simp add: countOf_def)
  have keys: "set (map fst m) = {c. \<exists>r\<in>set data. f r = Inr c}"
    using forEach_classify(2) [OF f] by simp
  have dist: "distinct (map fst m)"
    using forEach_classify(3) [OF f] by simp
  have total: "totalOf m = length data"
    using forEach_counts_rows [OF f] by (simp add: totalOf_def)
  have names: "mset (map name ?shares) = mset (map fst m)"
    by (rule names_sorted_percentages)
  from dist have 1: "distinct (map name ?shares)"
    by (simp only: mset_eq_imp_distinct_iff [OF names])
  from names have "set (map name ?shares) = set (map fst m)"
    by (rule mset_eq_setD)
  with keys have 2: "set (map name ?shares) = {c. \<exists>r\<in>set data. f r = Inr c}"
    by simp
  have 3: "\<forall>e\<in>set ?shares. value e
           = fl (fl (real (length (filter (\<lambda>r. f r = Inr (name e)) data)) / real (length data))
                 * 100)"
  proof
    fix e
    assume "e \<in> set ?shares"
    then have e: "e \<in> set (percentages (totalOf m) m)"
      by (simp only: set_sortDescending)
    then have "name e \<in> set (map name (percentages (totalOf m) m))"
      by simp
    then have "name e \<in> set (map fst m)"
      by (simp only: name_percentages)
    with keys obtain r where "r \<in> set data"
      by blast
    then have "0 < length data"
      by (cases data) simp_all
    with entry_percentages [OF e dist] total count
    show "value e
           = fl (fl (real (length (filter (\<lambda>r. f r = Inr (name e)) data)) / real (length data))
                 * 100)"
      by simp
  qed
  have 4: "sorted_wrt (\<lambda>a b. value b \<le> value a) ?shares"
    by (rule sorted_sortDescending)
  have "length ?shares = length (map fst m)"
    by (simp add: length_sortDescending percentages_def)
  also from dist have "\<dots> = card (set (map fst m))"
    by (rule distinct_card [symmetric])
  finally have 5: "length ?shares = card {c. \<exists>r\<in>set data. f r = Inr c}"
    by (simp only: keys)
  have 6: "take 5 ?shares = take 5 ?shares"
    by (rule refl)
  show ?thesis
    by (rule exI [of _ ?shares]) (intro conjI 1 2 3 4 5 6)
qed

lemma whoDispose_top5:
  assumes "calculateWhoDisposeData lc data = Inr d"
  shows "\<exists>shares. distinct (map name shares)
     \<and> set (map name shares) = {c. \<exists>r\<in>set data. categorize lc (disposeValue r) = Inr c}
     \<and> (\<forall>e\<in>set shares. value e
           = fl (fl (real (length (filter (\<lambda>r. categorize lc (disposeValue r) = Inr (name e))
                                     data)) / real (length data)) * 100))
     \<and> sorted_wrt (\<lambda>a b. value b \<le> value a) shares
     \<and> d = take 5 shares
     \<and> length shares = card {c. \<exists>r\<in>set data. categorize lc (disposeValue r) = Inr c}"
proof -
  from assms obtain m where m: "disposeCount lc data = Inr m"
    and d: "d = take 5 (sortDescending (percentages (totalOf m) m))"
    by (auto simp add: calculateWhoDisposeData_def Let_def split: sum.splits)
  have w: "whoDisposeRow lc = (\<lambda>r counts. case categorize lc (disposeValue r) of
              Inl e \<Rightarrow> Inl e | Inr c \<Rightarrow> Inr (bump counts c))"
    by (intro ext) (simp add: whoDisposeRow_def)
  from m have f: "forEach (\<lambda>r counts. case categorize lc (disposeValue r) of
              Inl e \<Rightarrow> Inl e | Inr c \<Rightarrow> Inr (bump counts c)) data [] = Inr m"
    by (simp add: disposeCount_def w)
  from classified_shares [OF f] show ?thesis
    unfolding d .
qed

lemma setting_top5:
  assumes "calculateSettingData lc data = Inr d"
  shows "\<exists>shares. distinct (map name shares)
     \<and> set (map name shares)
         = {c. \<exists>r\<in>set data. categorizeLocation lc (settingValue r) = Inr c}
     \<and> (\<forall>e\<in>set shares. value e
           = fl (fl (real (length (filter (\<lambda>r. categorizeLocation lc (settingValue r)
                                                  = Inr (name e)) data))
                     / real (length data)) * 100))
     \<and> sorted_wrt (\<lambda>a b. value b \<le> value a) shares
     \<and> d = take 5 shares
     \<and> length shares
         = card {c. \<exists>r\<in>set data. categorizeLocation lc (settingValue r) = Inr c}"
proof -
  from assms obtain m where m: "settingCount lc data = Inr m"
    and d: "d = take 5 (sortDescending (percentages (totalOf m) m))"
    by (auto simp add: calculateSettingData_def Let_def split: sum.splits)
  have w: "settingRow lc = (\<lambda>r counts. case categorizeLocation lc (settingValue r) of
              Inl e \<Rightarrow> Inl e | Inr c \<Rightarrow> Inr (bump counts c))"
    by (intro ext) (simp add: settingRow_def)
  from m have f: "forEach (\<lambda>r counts. case categorizeLocation lc (settingValue r) of
              Inl e \<Rightarrow> Inl e | Inr c \<Rightarrow> Inr (bump counts c)) data [] = Inr m"
    by (simp add: settingCount_def w)
  from classified_shares [OF f] show ?thesis
    unfolding d .
qed

lemma six_observed:
  "card {c. \<exists>r\<in>set sixDisposers. categorize toLowerCase_ascii (disposeValue r) = Inr c} = 6"
proof -
  let ?six = "[(lit ''Nearby Households'', 1::nat), (lit ''Vendors / Small Stalls'', 1),
          (lit ''People from Outside'', 1), (lit ''Passing Crowd / Vehicle People'', 1),
          (lit ''Households and Vendors Mixed'', 1), (lit ''Construction Waste'', 1)]"
  have "distinct (map fst ?six)"
    by (simp add: lit_eq_iff)
  then have "card (set (map fst ?six)) = length (map fst ?six)"
    by (rule distinct_card)
  then show ?thesis
    by (simp only: disposeCount_classified(2) [OF disposeCount_six, symmetric])
       simp
qed
section \<open>Order of the taxonomy entries\<close>

lemma categorize_street_vendor_stall:
  "categorize toLowerCase_ascii (JStr (lit ''street vendor stall''))
     = Inr (lit ''Vendors / Small Stalls'')"
  by (simp add: categorize_def categoryMap_def eval_text)

text \<open>
  Claim C6. \<open>categorize\<close> goes through \<open>categoryMap\<close> in declaration order and returns the
  category of the first entry one of whose keywords the normalised text includes:
  whenever \<open>categoryMap\<close> splits into entries \<open>pre\<close> that do not match, an entry \<open>e\<close> that
  matches and the rest, the result is the category of \<open>e\<close>. In particular
  \<open>categorize("street vendor stall")\<close> is "Vendors / Small Stalls" (second entry, keyword
  "vendor"), although the last entry, "Market / Vendor Community", matches the text as
  well (keyword "stall").
\<close>

theorem categorize_first_match_wins:
  "(\<forall>pre e post.
      categoryMap = pre @ e # post \<and>
      (\<forall>d\<in>set pre. \<not> someKeyword toLowerCase (trim (toLowerCase s)) d) \<and>
      someKeyword toLowerCase (trim (toLowerCase s)) e
      \<longrightarrow> categorize toLowerCase (JStr s) = Inr (category e))
   \<and> categorize toLowerCase_ascii (JStr (lit ''street vendor stall''))
       = Inr (lit ''Vendors / Small Stalls'')
   \<and> someKeyword toLowerCase_ascii (lit ''street vendor stall'') (categoryMap ! 11)
   \<and> category (categoryMap ! 11) = lit ''Market / Vendor Community''"
proof (intro conjI allI impI)
  fix pre e post
  assume "categoryMap = pre @ e # post \<and>
      (\<forall>d\<in>set pre. \<not> someKeyword toLowerCase (trim (toLowerCase s)) d) \<and>
      someKeyword toLowerCase (trim (toLowerCase s)) e"
  then have a: "categoryMap = pre @ e # post"
    and b: "\<forall>d\<in>set pre. \<not> someKeyword toLowerCase (trim (toLowerCase s)) d"
    and c: "someKeyword toLowerCase (trim (toLowerCase s)) e"
    by blast+
  have "firstMatch toLowerCase categoryMap (trim (toLowerCase s)) = Some (category e)"
    unfolding a by (rule firstMatch_hit [OF b c])
  then show "categorize toLowerCase (JStr s) = Inr (category e)"
    by (simp add: categorize_def)
next
  show "categorize toLowerCase_ascii (JStr (lit ''street vendor stall''))
       = Inr (lit ''Vendors / Small Stalls'')"
    by (rule categorize_street_vendor_stall)
next
  show "someKeyword toLowerCase_ascii (lit ''street vendor stall'') (categoryMap ! 11)"
    by (simp add: categoryMap_def eval_text)
next
  show "category (categoryMap ! 11) = lit ''Market / Vendor Community''"
    by (simp add: categoryMap_def)
qed

theorem categorize_first_match_wins_witness:
  "categoryMap = [categoryMap ! 0] @ categoryMap ! 1 # drop 2 categoryMap
   \<and> \<not> someKeyword toLowerCase_ascii (trim (toLowerCase_ascii (lit ''chai wale shop'')))
          (categoryMap ! 0)
   \<and> someKeyword toLowerCase_ascii (trim (toLowerCase_ascii (lit ''chai wale shop'')))
        (categoryMap ! 1)
   \<and> categorize toLowerCase_ascii (JStr (lit ''chai wale shop''))
       = Inr (category (categoryMap ! 1))"
proof -
  let ?t = "trim (toLowerCase_ascii (lit ''chai wale shop''))"
  have a: "categoryMap = [categoryMap ! 0] @ categoryMap ! 1 # drop 2 categoryMap"
    by (simp add: categoryMap_def)
  have b: "\<not> someKeyword toLowerCase_ascii ?t (categoryMap ! 0)"
    by (simp add: categoryMap_def eval_text)
  have c: "someKeyword toLowerCase_ascii ?t (categoryMap ! 1)"
    by (simp add: categoryMap_def eval_text)
  have "categorize toLowerCase_ascii (JStr (lit ''chai wale shop''))
          = Inr (category (categoryMap ! 1))"
  proof (rule categorize_first_match_wins [THEN conjunct1, rule_format])
    show "categoryMap = [categoryMap ! 0] @ categoryMap ! 1 # drop 2 categoryMap \<and>
      (\<forall>d\<in>set [categoryMap ! 0]. \<not> someKeyword toLowerCase_ascii ?t d) \<and>
      someKeyword toLowerCase_ascii ?t (categoryMap ! 1)"
      using a b c by simp
  qed
  with a b c show ?thesis by blast
qed

section \<open>The entry "Nearby + Outside Combined"\<close>

lemma keeps_nearby:
  assumes "keepsKeywords lc categoryMap"
  shows "lc (lit ''nearby household'') = lit ''nearby household''"
    and "lc [0x091C, 0x0935, 0x0933, 0x0020, 0x092A, 0x093E, 0x0938]
          = [0x091C, 0x0935, 0x0933, 0x0020, 0x092A, 0x093E, 0x0938]"
    and "lc (lit ''nearby households and people from outside'')
          = lit ''nearby households and people from outside''"
    and "lc (keywords (categoryMap ! 10) ! 1) = keywords (categoryMap ! 10) ! 1"
  using assms by (simp_all add: keepsKeywords_def categoryMap_def)

lemma nearby_shadows_combined:
  assumes K: "keepsKeywords lc categoryMap" and M: "someKeyword lc t (categoryMap ! 10)"
  shows "someKeyword lc t (categoryMap ! 0)"
proof -
  let ?a = "lit ''nearby households and people from outside''"
  let ?b = "keywords (categoryMap ! 10) ! 1"
  from M have "str_includes t (lc ?a) \<or> str_includes t (lc ?b)"
    by (simp add: someKeyword_def categoryMap_def)
  then have "str_includes t ?a \<or> str_includes t ?b"
    using keeps_nearby [OF K] by simp
  moreover have "str_includes ?a (lit ''nearby household'')"
    by (simp add: lit_def)
  moreover have "str_includes ?b [0x091C, 0x0935, 0x0933, 0x0020, 0x092A, 0x093E, 0x0938]"
    by (simp add: categoryMap_def)
  ultimately have "str_includes t (lit ''nearby household'')
      \<or> str_includes t [0x091C, 0x0935, 0x0933, 0x0020, 0x092A, 0x093E, 0x0938]"
    by (blast intro: str_includes_trans)
  then have "str_includes t (lc (lit ''nearby household''))
      \<or> str_includes t (lc [0x091C, 0x0935, 0x0933, 0x0020, 0x092A, 0x093E, 0x0938])"
    using keeps_nearby [OF K] by simp
  then show ?thesis
    by (auto simp add: someKeyword_def categoryMap_def)
qed

lemma firstMatch_categoryMap_not_combined:
  assumes "someKeyword lc t (categoryMap ! 10) \<longrightarrow> someKeyword lc t (categoryMap ! 0)"
  shows "firstMatch lc categoryMap t \<noteq> Some (lit ''Nearby + Outside Combined'')"
  using assms by (simp add: categoryMap_def lit_def)

text \<open>
  Claim C10. \<open>categorize\<close> never returns "Nearby + Outside Combined", whatever its
  argument: both keywords of that entry contain a keyword of the first entry, "Nearby
  Households" ("nearby household", and the Marathi phrase written U+091C U+0935 U+0933
  U+0020 U+092A U+093E U+0938), so a text that includes one of them is matched by the
  first entry already. (\<open>toLowerCase\<close> leaves the keywords of the table, which are in
  lower case, as they are.)
\<close>

theorem categorize_never_combined:
  assumes "keepsKeywords toLowerCase categoryMap"
  shows "categorize toLowerCase text \<noteq> Inr (lit ''Nearby + Outside Combined'')"
proof (cases "text")
  case (JStr s)
  have "firstMatch toLowerCase categoryMap (trim (toLowerCase s))
          \<noteq> Some (lit ''Nearby + Outside Combined'')"
    by (rule firstMatch_categoryMap_not_combined) (simp add: nearby_shadows_combined [OF assms])
  moreover have "lit ''Unknown / Not Mentioned'' \<noteq> lit ''Nearby + Outside Combined''"
    by (simp add: lit_def)
  ultimately show ?thesis
    using JStr by (auto simp add: categorize_def split: option.splits)
qed (simp_all add: categorize_def)

theorem categorize_never_combined_witness:
  "keepsKeywords toLowerCase_ascii categoryMap
   \<and> categorize toLowerCase_ascii (JStr (lit ''Nearby households and people from outside''))
       \<noteq> Inr (lit ''Nearby + Outside Combined'')
   \<and> categorize toLowerCase_ascii (JStr (lit ''Nearby households and people from outside''))
       = Inr (lit ''Nearby Households'')"
proof -
  have k: "keepsKeywords toLowerCase_ascii categoryMap"
    by (simp add: keepsKeywords_def categoryMap_def lit_def toLowerCase_ascii_def)
  have "categorize toLowerCase_ascii (JStr (lit ''Nearby households and people from outside''))
       = Inr (lit ''Nearby Households'')"
    by (simp add: categorize_def categoryMap_def eval_text)
  with k categorize_never_combined [OF k, of "JStr (lit ''Nearby households and people from outside'')"]
  show ?thesis by simp
qed

section \<open>The default categories\<close>

text \<open>
  Each of the two tables with a default category has an entry of its own for that
  category: "Unknown / Not Mentioned" is the tenth entry of \<open>categoryMap\<close> (keywords
  "unknown", a Marathi phrase, "n", "all", "dont know"), "Other / Miscellaneous" the last
  entry of \<open>locationMap\<close> (keywords "other", "unknown", "misc"). So the classifiers return
  the default category for texts that do include a keyword: "unknown" and "other".
\<close>

theorem default_category_by_keyword_counterexample:
  "categorize toLowerCase_ascii (JStr (lit ''unknown'')) = Inr (lit ''Unknown / Not Mentioned'')
   \<and> list_ex (someKeyword toLowerCase_ascii (trim (toLowerCase_ascii (lit ''unknown''))))
        categoryMap
   \<and> categorizeLocation toLowerCase_ascii (JStr (lit ''other''))
        = Inr (lit ''Other / Miscellaneous'')
   \<and> list_ex (someKeyword id (trim (toLowerCase_ascii (lit ''other'')))) locationMap"
proof (intro conjI)
  show "categorize toLowerCase_ascii (JStr (lit ''unknown'')) = Inr (lit ''Unknown / Not Mentioned'')"
    by (simp add: categorize_def categoryMap_def eval_text)
  show "list_ex (someKeyword toLowerCase_ascii (trim (toLowerCase_ascii (lit ''unknown''))))
        categoryMap"
    by (simp add: categoryMap_def eval_text)
  show "categorizeLocation toLowerCase_ascii (JStr (lit ''other''))
        = Inr (lit ''Other / Miscellaneous'')"
    by (simp add: categorizeLocation_def js_or_def locationMap_def eval_text)
  show "list_ex (someKeyword id (trim (toLowerCase_ascii (lit ''other'')))) locationMap"
    by (simp add: locationMap_def eval_text)
qed

lemma firstMatch_categoryMap_default:
  "firstMatch kw categoryMap t = Some (lit ''Unknown / Not Mentioned'') \<longleftrightarrow>
     (\<forall>e\<in>set (take 9 categoryMap). \<not> someKeyword kw t e) \<and> someKeyword kw t (categoryMap ! 9)"
  by (simp add: categoryMap_def lit_def)

lemma firstMatch_locationMap_default:
  "firstMatch kw locationMap t = Some (lit ''Other / Miscellaneous'') \<longleftrightarrow>
     (\<forall>e\<in>set (take 8 locationMap). \<not> someKeyword kw t e) \<and> someKeyword kw t (locationMap ! 8)"
  by (simp add: locationMap_def lit_def)

text \<open>
  Claim C2, as the code has it. The default category is returned exactly when no entry
  declared before the table's own entry for it matches, and either that entry matches or
  no later entry does. For \<open>locationMap\<close> the entry is the last one, so that only the
  first eight entries matter.
\<close>

theorem default_category_iff:
  "(categorize toLowerCase (JStr s) = Inr (lit ''Unknown / Not Mentioned'') \<longleftrightarrow>
      (\<forall>e\<in>set (take 9 categoryMap). \<not> someKeyword toLowerCase (trim (toLowerCase s)) e) \<and>
      (someKeyword toLowerCase (trim (toLowerCase s)) (categoryMap ! 9) \<or>
       (\<forall>e\<in>set (drop 10 categoryMap). \<not> someKeyword toLowerCase (trim (toLowerCase s)) e)))
   \<and> category (categoryMap ! 9) = lit ''Unknown / Not Mentioned''
   \<and> (categorizeLocation toLowerCase (JStr s) = Inr (lit ''Other / Miscellaneous'') \<longleftrightarrow>
      (\<forall>e\<in>set (take 8 locationMap). \<not> someKeyword id (trim (toLowerCase s)) e))
   \<and> category (locationMap ! 8) = lit ''Other / Miscellaneous''
   \<and> length locationMap = 9"
proof (intro conjI)
  let ?t = "trim (toLowerCase s)"
  have n: "firstMatch toLowerCase categoryMap ?t = None \<longleftrightarrow>
      (\<forall>e\<in>set (take 9 categoryMap). \<not> someKeyword toLowerCase ?t e) \<and>
      \<not> someKeyword toLowerCase ?t (categoryMap ! 9) \<and>
      (\<forall>e\<in>set (drop 10 categoryMap). \<not> someKeyword toLowerCase ?t e)"
    by (simp add: categoryMap_def)
  have "categorize toLowerCase (JStr s) = Inr (lit ''Unknown / Not Mentioned'') \<longleftrightarrow>
      firstMatch toLowerCase categoryMap ?t = Some (lit ''Unknown / Not Mentioned'') \<or>
      firstMatch toLowerCase categoryMap ?t = None"
    by (auto simp add: categorize_def split: option.splits)
  then show "categorize toLowerCase (JStr s) = Inr (lit ''Unknown / Not Mentioned'') \<longleftrightarrow>
      (\<forall>e\<in>set (take 9 categoryMap). \<not> someKeyword toLowerCase ?t e) \<and>
      (someKeyword toLowerCase ?t (categoryMap ! 9) \<or>
       (\<forall>e\<in>set (drop 10 categoryMap). \<not> someKeyword toLowerCase ?t e))"
    unfolding firstMatch_categoryMap_default n by blast
next
  let ?t = "trim (toLowerCase s)"
  have n: "firstMatch id locationMap ?t = None \<longleftrightarrow>
      (\<forall>e\<in>set (take 8 locationMap). \<not> someKeyword id ?t e) \<and>
      \<not> someKeyword id ?t (locationMap ! 8)"
    by (simp add: locationMap_def)
  have j: "js_or (JStr s) (JStr []) = JStr s"
    by (simp add: js_or_def)
  have "categorizeLocation toLowerCase (JStr s) = Inr (lit ''Other / Miscellaneous'') \<longleftrightarrow>
      firstMatch id locationMap ?t = Some (lit ''Other / Miscellaneous'') \<or>
      firstMatch id locationMap ?t = None"
    by (auto simp add: categorizeLocation_def j split: option.splits)
  then show "categorizeLocation toLowerCase (JStr s) = Inr (lit ''Other / Miscellaneous'') \<longleftrightarrow>
      (\<forall>e\<in>set (take 8 locationMap). \<not> someKeyword id ?t e)"
    unfolding firstMatch_locationMap_default n by blast
qed (simp_all add: categoryMap_def locationMap_def)

theorem default_category_iff_witness:
  "categorize toLowerCase_ascii (JStr (lit ''All of them'')) = Inr (lit ''Unknown / Not Mentioned'')
   \<and> someKeyword toLowerCase_ascii (trim (toLowerCase_ascii (lit ''All of them''))) (categoryMap ! 9)
   \<and> categorizeLocation toLowerCase_ascii (JStr (lit ''Misc'')) = Inr (lit ''Other / Miscellaneous'')
   \<and> someKeyword id (trim (toLowerCase_ascii (lit ''Misc''))) (locationMap ! 8)"
proof -
  let ?t = "trim (toLowerCase_ascii (lit ''All of them''))"
  let ?u = "trim (toLowerCase_ascii (lit ''Misc''))"
  have a: "\<forall>e\<in>set (take 9 categoryMap). \<not> someKeyword toLowerCase_ascii ?t e"
    by (simp add: categoryMap_def eval_text)
  have b: "someKeyword toLowerCase_ascii ?t (categoryMap ! 9)"
    by (simp add: categoryMap_def eval_text)
  have c: "\<forall>e\<in>set (take 8 locationMap). \<not> someKeyword id ?u e"
    by (simp add: locationMap_def eval_text)
  have d: "someKeyword id ?u (locationMap ! 8)"
    by (simp add: locationMap_def eval_text)
  from a b default_category_iff [of toLowerCase_ascii "lit ''All of them''"]
  have "categorize toLowerCase_ascii (JStr (lit ''All of them'')) = Inr (lit ''Unknown / Not Mentioned'')"
    by blast
  moreover from c default_category_iff [of toLowerCase_ascii "lit ''Misc''"]
  have "categorizeLocation toLowerCase_ascii (JStr (lit ''Misc'')) = Inr (lit ''Other / Miscellaneous'')"
    by blast
  ultimately show ?thesis using b d by blast
qed

section \<open>Absent and empty text\<close>

text \<open>
  \<open>categorizeLocation\<close> and \<open>categorizeSolution\<close> start with \<open>(text || "")\<close>;
  \<open>categorize\<close> does not, and throws on \<open>null\<close> and \<open>undefined\<close>. Its only caller,
  \<open>calculateWhoDisposeData\<close>, passes \<open>row["Who Dispose"] || ""\<close>.
\<close>

theorem categorize_null_counterexample:
  "categorize toLowerCase_ascii JNull = Inl TypeError
   \<and> categorize toLowerCase_ascii JUndefined = Inl TypeError"
  by (simp add: categorize_def)

lemma categorize_empty:
  "categorize toLowerCase_ascii (JStr []) = Inr (lit ''Unknown / Not Mentioned'')"
  by (simp add: categorize_def Let_def trim_empty categoryMap_def someKeyword_def lit_def
        toLowerCase_ascii_def)

lemma categorizeLocation_empty:
  "categorizeLocation toLowerCase_ascii (JStr []) = Inr (lit ''Other / Miscellaneous'')"
  by (simp add: categorizeLocation_def Let_def js_or_def trim_empty locationMap_def someKeyword_def lit_def
        toLowerCase_ascii_def)

lemma categorizeSolution_empty:
  "categorizeSolution toLowerCase_ascii (JStr []) = Inr None"
  by (simp add: categorizeSolution_def Let_def js_or_def trim_empty solutionCategories_def
        someKeyword_def lit_def toLowerCase_ascii_def)

text \<open>
  Claim C4, as the code has it. For \<open>null\<close>, \<open>undefined\<close> and the empty string,
  \<open>categorizeLocation\<close> returns "Other / Miscellaneous" and \<open>categorizeSolution\<close> returns
  \<open>null\<close>. \<open>categorize\<close> returns "Unknown / Not Mentioned" for the empty string and
  throws a TypeError for \<open>null\<close> and \<open>undefined\<close>; the scan of
  \<open>calculateWhoDisposeData\<close> counts a record whose "Who Dispose" is absent, \<open>null\<close> or
  empty under "Unknown / Not Mentioned".
\<close>

theorem classifiers_on_absent_text:
  "categorizeLocation toLowerCase_ascii JNull = Inr (lit ''Other / Miscellaneous'')
   \<and> categorizeLocation toLowerCase_ascii JUndefined = Inr (lit ''Other / Miscellaneous'')
   \<and> categorizeLocation toLowerCase_ascii (JStr []) = Inr (lit ''Other / Miscellaneous'')
   \<and> categorizeSolution toLowerCase_ascii JNull = Inr None
   \<and> categorizeSolution toLowerCase_ascii JUndefined = Inr None
   \<and> categorizeSolution toLowerCase_ascii (JStr []) = Inr None
   \<and> categorize toLowerCase_ascii (JStr []) = Inr (lit ''Unknown / Not Mentioned'')
   \<and> categorize toLowerCase_ascii JNull = Inl TypeError
   \<and> categorize toLowerCase_ascii JUndefined = Inl TypeError
   \<and> (field r (lit ''Who Dispose'') \<in> {JUndefined, JNull, JStr []} \<longrightarrow>
        whoDisposeRow toLowerCase_ascii r counts
          = Inr (bump counts (lit ''Unknown / Not Mentioned'')))"
proof (intro conjI impI)
  show "categorizeLocation toLowerCase_ascii JNull = Inr (lit ''Other / Miscellaneous'')"
    using categorizeLocation_empty by (simp add: categorizeLocation_def js_or_def)
  show "categorizeLocation toLowerCase_ascii JUndefined = Inr (lit ''Other / Miscellaneous'')"
    using categorizeLocation_empty by (simp add: categorizeLocation_def js_or_def)
  show "categorizeLocation toLowerCase_ascii (JStr []) = Inr (lit ''Other / Miscellaneous'')"
    by (rule categorizeLocation_empty)
  show "categorizeSolution toLowerCase_ascii JNull = Inr None"
    using categorizeSolution_empty by (simp add: categorizeSolution_def js_or_def)
  show "categorizeSolution toLowerCase_ascii JUndefined = Inr None"
    using categorizeSolution_empty by (simp add: categorizeSolution_def js_or_def)
  show "categorizeSolution toLowerCase_ascii (JStr []) = Inr None"
    by (rule categorizeSolution_empty)
  show "categorize toLowerCase_ascii (JStr []) = Inr (lit ''Unknown / Not Mentioned'')"
    by (rule categorize_empty)
  show "categorize toLowerCase_ascii JNull = Inl TypeError"
    by (simp add: categorize_def)
  show "categorize toLowerCase_ascii JUndefined = Inl TypeError"
    by (simp add: categorize_def)
next
  assume "field r (lit ''Who Dispose'') \<in> {JUndefined, JNull, JStr []}"
  then have "disposeValue r = JStr []"
    by (auto simp add: disposeValue_def js_or_def)
  then show "whoDisposeRow toLowerCase_ascii r counts
          = Inr (bump counts (lit ''Unknown / Not Mentioned''))"
    by (simp add: whoDisposeRow_def categorize_empty)
qed

theorem classifiers_on_absent_text_witness:
  "field Map.empty (lit ''Who Dispose'') = JUndefined
   \<and> whoDisposeRow toLowerCase_ascii Map.empty [] = Inr [(lit ''Unknown / Not Mentioned'', 1)]"
proof -
  have a: "field Map.empty (lit ''Who Dispose'') = JUndefined"
    by (simp add: field_def)
  with classifiers_on_absent_text [of Map.empty "[]"]
  have "whoDisposeRow toLowerCase_ascii Map.empty []
          = Inr (bump [] (lit ''Unknown / Not Mentioned''))"
    by simp
  with a show ?thesis by (simp add: bump_def countOf_def)
qed

section \<open>The sum of the returned values\<close>






section \<open>The empty record set\<close>

text \<open>
  On the empty record set \<open>calculateProblemsData\<close> and \<open>calculateReasonsData\<close> return one
  entry per known category with value \<open>0\<close> (the \<open>totalCount > 0 ? ... : 0\<close> branch): neither
  the empty array nor a uniform distribution.
\<close>

theorem empty_problems_counterexample:
  "calculateProblemsData [] \<noteq> []
   \<and> map value (calculateProblemsData []) = [0, 0, 0, 0, 0]
   \<and> map value (calculateReasonsData []) = [0, 0, 0, 0, 0, 0]"
  by (simp add: calculateProblemsData_def problemsCount_def problemsCount0_def
        calculateReasonsData_def reasonsCount_def reasonsCount0_def
        totalOf_def percentages_def sortDescending_def)

text \<open>
  Claim C3, as the code has it. On the empty record set no aggregation throws or divides
  by zero: \<open>calculateWasteTypeCounts\<close>, \<open>calculateWhoDisposeData\<close> and
  \<open>calculateSettingData\<close> return the empty array, \<open>calculateProblemsData\<close> and
  \<open>calculateReasonsData\<close> return every known category with value \<open>0\<close>, and
  \<open>calculateSolutionData\<close> returns the eight solution categories with value \<open>12.5\<close> each.
\<close>

theorem aggregations_on_empty_data:
  "calculateWasteTypeCounts [] = []
   \<and> map name (calculateProblemsData []) = map fst problemsCount0
   \<and> map value (calculateProblemsData []) = [0, 0, 0, 0, 0]
   \<and> map name (calculateReasonsData []) = map fst reasonsCount0
   \<and> map value (calculateReasonsData []) = [0, 0, 0, 0, 0, 0]
   \<and> calculateWhoDisposeData toLowerCase [] = Inr []
   \<and> calculateSettingData toLowerCase [] = Inr []
   \<and> calculateSolutionData toLowerCase []
       = Inr (map (\<lambda>e. \<lparr>name = category e, value = 12.5\<rparr>) solutionCategories)
   \<and> length solutionCategories = 8"
proof (intro conjI)
  show "calculateWasteTypeCounts [] = []"
    by (simp add: calculateWasteTypeCounts_def wasteTypeCounts_def wasteTypeToColumnMap_def
        countOf_def lit_eq_iff)
  show "map name (calculateProblemsData []) = map fst problemsCount0"
    by (simp add: calculateProblemsData_def problemsCount_def problemsCount0_def
        totalOf_def percentages_def sortDescending_def)
  show "map value (calculateProblemsData []) = [0, 0, 0, 0, 0]"
    by (simp add: calculateProblemsData_def problemsCount_def problemsCount0_def
        totalOf_def percentages_def sortDescending_def)
  show "map name (calculateReasonsData []) = map fst reasonsCount0"
    by (simp add: calculateReasonsData_def reasonsCount_def reasonsCount0_def
        totalOf_def percentages_def sortDescending_def)
  show "map value (calculateReasonsData []) = [0, 0, 0, 0, 0, 0]"
    by (simp add: calculateReasonsData_def reasonsCount_def reasonsCount0_def
        totalOf_def percentages_def sortDescending_def)
  show "calculateWhoDisposeData toLowerCase [] = Inr []"
    by (simp add: calculateWhoDisposeData_def disposeCount_def totalOf_def percentages_def
        sortDescending_def)
  show "calculateSettingData toLowerCase [] = Inr []"
    by (simp add: calculateSettingData_def settingCount_def totalOf_def percentages_def
        sortDescending_def)
  show "calculateSolutionData toLowerCase []
       = Inr (map (\<lambda>e. \<lparr>name = category e, value = 12.5\<rparr>) solutionCategories)"
    by (simp add: calculateSolutionData_def solutionCount_def solutionCount0_eval totalOf_def
        fl_eighth)
  show "length solutionCategories = 8"
    by (simp add: solutionCategories_def)
qed


section \<open>The zero-data fallback of the solution chart\<close>

text \<open>
  Claim C7. Whenever the scan of \<open>calculateSolutionData\<close> ends with a total count of \<open>0\<close>,
  the function returns one entry per entry of \<open>solutionCategories\<close>, in declaration order,
  each with value \<open>100 / 8 = 12.5\<close>; there are eight such categories.
\<close>

theorem solution_zero_total:
  assumes "solutionCount toLowerCase data = Inr counts" and "totalOf counts = 0"
  shows "calculateSolutionData toLowerCase data
           = Inr (map (\<lambda>e. \<lparr>name = category e, value = 12.5\<rparr>) solutionCategories)
         \<and> length solutionCategories = 8"
  using assms by (simp add: calculateSolutionData_def solutionCategories_def fl_eighth)

theorem solution_zero_total_witness:
  "solutionCount toLowerCase_ascii [Map.empty] = Inr solutionCount0
   \<and> totalOf solutionCount0 = 0
   \<and> map_sum id (map value) (calculateSolutionData toLowerCase_ascii [Map.empty])
       = Inr [12.5, 12.5, 12.5, 12.5, 12.5, 12.5, 12.5, 12.5]
   \<and> map_sum id (map name) (calculateSolutionData toLowerCase_ascii [Map.empty])
       = Inr (map category solutionCategories)"
proof -
  have a: "solutionCount toLowerCase_ascii [Map.empty] = Inr solutionCount0"
    by (simp add: solutionCount_def solutionRow_def solutionColumns_def solutionColumn_def
        field_def)
  have b: "totalOf solutionCount0 = 0"
    by (simp add: solutionCount0_eval totalOf_def)
  from solution_zero_total [OF a b] a b show ?thesis
    by (simp add: solutionCategories_def)
qed

section \<open>The projection of a single record\<close>

text \<open>
  \<open>calculatePieForRow\<close> keeps a waste type when \<open>row[column] === 1\<close>. For a record with
  exactly two waste-type columns equal to the number \<open>1\<close> it returns two entries, each of
  value \<open>1\<close> (no percentages), named after the waste types of those two columns in the
  order of \<open>wasteTypeToColumnMap\<close>.
\<close>

lemma card_flagged:
  assumes "distinct (map snd xs)"
  shows "card {c \<in> snd ` set xs. P c} = length (filter (\<lambda>(t, c). P c) xs)"
proof -
  have e: "{c \<in> snd ` set xs. P c} = set (filter P (map snd xs))"
    by auto
  have d: "distinct (filter P (map snd xs))"
    using assms by simp
  have "card (set (filter P (map snd xs))) = length (filter P (map snd xs))"
    using d by (rule distinct_card)
  also have "length (filter P (map snd xs)) = length (filter (\<lambda>(t, c). P c) xs)"
    by (induction xs) auto
  finally show ?thesis
    unfolding e .
qed

lemma value_ones:
  "map value (map (\<lambda>(type, column). \<lparr>name = type, value = 1\<rparr>) ys) = replicate (length ys) 1"
  by (induction ys) auto

lemma distinct_columns: "distinct (map snd wasteTypeToColumnMap)"
  by (simp add: wasteTypeToColumnMap_def lit_eq_iff)

lemma pie_for_row_numeric_flags:
  assumes "card {column \<in> snd ` set wasteTypeToColumnMap. field r column = JNum 1} = 2"
  shows "length (calculatePieForRow r) = 2
         \<and> map value (calculatePieForRow r) = [1, 1]
         \<and> map name (calculatePieForRow r)
             = map fst (filter (\<lambda>(type, column). field r column = JNum 1) wasteTypeToColumnMap)"
proof -
  let ?f = "filter (\<lambda>(type, column). field r column = JNum 1) wasteTypeToColumnMap"
  from assms have len: "length ?f = 2"
    by (simp add: card_flagged [OF distinct_columns])
  have v: "map value (calculatePieForRow r) = replicate (length ?f) 1"
    unfolding calculatePieForRow_def by (rule value_ones)
  have n: "map name (calculatePieForRow r) = map fst ?f"
    by (simp add: calculatePieForRow_def split_def comp_def)
  from len v n show ?thesis
    by (simp add: calculatePieForRow_def numeral_2_eq_2)
qed

lemma pie_for_row_sample:
  "card {column \<in> snd ` set wasteTypeToColumnMap. field sampleRow column = JNum 1} = 2
   \<and> calculatePieForRow sampleRow
       = [\<lparr>name = lit ''Clothes'', value = 1\<rparr>, \<lparr>name = lit ''Others'', value = 1\<rparr>]
   \<and> length (calculatePieForRow sampleRow) = 2
   \<and> map value (calculatePieForRow sampleRow) = [1, 1]"
proof -
  have f: "filter (\<lambda>(type, column). field sampleRow column = JNum 1) wasteTypeToColumnMap
             = [(lit ''Clothes'', lit ''Clothes Waste''), (lit ''Others'', lit ''Others'')]"
    by (simp add: wasteTypeToColumnMap_def field_sampleRow)
  have c: "card {column \<in> snd ` set wasteTypeToColumnMap. field sampleRow column = JNum 1} = 2"
    by (simp add: card_flagged [OF distinct_columns] f)
  have "calculatePieForRow sampleRow
       = [\<lparr>name = lit ''Clothes'', value = 1\<rparr>, \<lparr>name = lit ''Others'', value = 1\<rparr>]"
    by (simp add: calculatePieForRow_def f)
  with c pie_for_row_numeric_flags [OF c] show ?thesis by simp
qed


text \<open>
  Claim C9. A record with exactly two truthy waste-type flags, written \<open>1\<close> or \<open>true\<close>,
  should give two entries of value \<open>1\<close>. \<open>calculatePieForRow\<close> compares with the number
  \<open>1\<close> only: for the record whose flags "Clothes Waste" and "Others" are \<open>true\<close> it
  returns the empty array, while the tooltip of the same record, which tests
  \<open>row[k] === 1 || row[k] === true\<close> on the same columns, lists both waste types.
\<close>

theorem pie_for_row_boolean_flags:
  "field booleanFlagsRow (lit ''Clothes Waste'') = JBool True
   \<and> field booleanFlagsRow (lit ''Others'') = JBool True
   \<and> wasteTypesFlagged booleanFlagsRow = [lit ''Clothes Waste'', lit ''Others'']
   \<and> calculatePieForRow booleanFlagsRow = []"
  by (simp add: calculatePieForRow_def wasteTypeToColumnMap_def wasteTypesFlagged_def
        wasteTypesMap_def booleanFlagsRow_def field_def lit_eq_iff)

section \<open>The multi-column scan of the solution columns\<close>

lemma solution_categories_nonempty: "[] \<notin> category ` set solutionCategories"
  by (simp add: solutionCategories_def lit_Nil_iff)

lemma solutionColumn_counted:
  assumes "textOrAbsent (field r col)"
  shows "solutionColumn lc r col counts =
           Inr (case countedCategory lc (field r col) of None \<Rightarrow> counts | Some c \<Rightarrow> bump counts c)"
proof (cases "field r col")
  case (JStr s)
  show ?thesis
  proof (cases "firstMatch lc solutionCategories (trim (lc s))")
    case None
    with JStr show ?thesis
      by (simp add: solutionColumn_def countedCategory_def categorizeSolution_def js_or_def Let_def
            trim_empty)
  next
    case (Some c)
    then have "c \<noteq> []"
      using firstMatch_category solution_categories_nonempty by fastforce
    with Some JStr show ?thesis
      by (simp add: solutionColumn_def countedCategory_def categorizeSolution_def js_or_def Let_def
            trim_empty)
  qed
qed (use assms in \<open>simp_all add: solutionColumn_def countedCategory_def textOrAbsent_def Let_def\<close>)

lemma forEach_total:
  assumes "\<forall>x\<in>set xs. \<forall>s. body x s = Inr (g x s)"
  shows "forEach body xs s = Inr (fold g xs s)"
  using assms by (induction xs arbitrary: s) simp_all

lemma countOf_fold_counted:
  "countOf (fold (\<lambda>x s. case f x of None \<Rightarrow> s | Some c \<Rightarrow> bump s c) xs s) k
     = countOf s k + length (filter (\<lambda>x. f x = Some k) xs)"
  by (induction xs arbitrary: s) (auto simp add: countOf_bump split: option.splits)

lemma totalOf_fold_counted:
  "totalOf (fold (\<lambda>x s. case f x of None \<Rightarrow> s | Some c \<Rightarrow> bump s c) xs s)
     = totalOf s + length (filter (\<lambda>x. f x \<noteq> None) xs)"
  by (induction xs arbitrary: s) (auto simp add: totalOf_bump split: option.splits)

text \<open>
  A column whose text is not empty and not "N/A" contributes nothing when no entry of
  \<open>solutionCategories\<close> matches it: \<open>categorizeSolution\<close> returns \<open>null\<close> and
  \<open>if (category)\<close> skips the increment.
\<close>

theorem solution_unmatched_counterexample:
  "trim (lit ''Keep it clean'') \<noteq> []
   \<and> lit ''Keep it clean'' \<noteq> lit ''N/A''
   \<and> categorizeSolution toLowerCase_ascii (JStr (lit ''Keep it clean'')) = Inr None
   \<and> solutionRow toLowerCase_ascii
        [lit ''Solution Suggested by Interviewee1'' \<mapsto> JStr (lit ''Keep it clean'')]
        solutionCount0 = Inr solutionCount0"
proof -
  have a: "trim (lit ''Keep it clean'') \<noteq> []" "lit ''Keep it clean'' \<noteq> lit ''N/A''"
    by (simp_all add: eval_text)
  have b: "categorizeSolution toLowerCase_ascii (JStr (lit ''Keep it clean'')) = Inr None"
    by (simp add: categorizeSolution_def js_or_def solutionCategories_def eval_text)
  have "solutionRow toLowerCase_ascii
        [lit ''Solution Suggested by Interviewee1'' \<mapsto> JStr (lit ''Keep it clean'')]
        solutionCount0 = Inr solutionCount0"
    by (simp add: solutionRow_def solutionColumns_def solutionColumn_def field_def Let_def
          lit_eq_iff lit_Nil_iff a b)
  with a b show ?thesis by simp
qed

text \<open>
  Claim C8, as the code has it. When the three solution columns of a record are strings
  or falsy, the scan of the record adds to each category the number of columns that are
  counted under it, and to the total the number of columns that are counted at all: those
  whose value is non-empty after trimming, is not the string "N/A", and is matched by an
  entry of \<open>solutionCategories\<close>. The record with the columns "More Bins", "N/A" and ""
  contributes exactly one count, to "Bins and Facilites".
\<close>

theorem solution_row_contributions:
  "((\<forall>col\<in>set solutionColumns. textOrAbsent (field r col)) \<longrightarrow>
      (\<exists>counts'. solutionRow toLowerCase r counts = Inr counts' \<and>
         (\<forall>c. countOf counts' c = countOf counts c +
                 length (filter (\<lambda>col. countedCategory toLowerCase (field r col) = Some c)
                           solutionColumns)) \<and>
         totalOf counts' = totalOf counts +
                 length (filter (\<lambda>col. countedCategory toLowerCase (field r col) \<noteq> None)
                           solutionColumns)))
   \<and> solutionRow toLowerCase_ascii sampleRow solutionCount0
        = Inr (bump solutionCount0 (lit ''Bins and Facilites''))
   \<and> totalOf (bump solutionCount0 (lit ''Bins and Facilites'')) = 1"
proof (intro conjI impI)
  let ?g = "\<lambda>col s. case countedCategory toLowerCase (field r col) of
                        None \<Rightarrow> s | Some c \<Rightarrow> bump s c"
  assume "\<forall>col\<in>set solutionColumns. textOrAbsent (field r col)"
  then have "\<forall>col\<in>set solutionColumns. \<forall>s. solutionColumn toLowerCase r col s = Inr (?g col s)"
    by (simp add: solutionColumn_counted)
  then have "solutionRow toLowerCase r counts = Inr (fold ?g solutionColumns counts)"
    unfolding solutionRow_def by (rule forEach_total)
  then show "\<exists>counts'. solutionRow toLowerCase r counts = Inr counts' \<and>
         (\<forall>c. countOf counts' c = countOf counts c +
                 length (filter (\<lambda>col. countedCategory toLowerCase (field r col) = Some c)
                           solutionColumns)) \<and>
         totalOf counts' = totalOf counts +
                 length (filter (\<lambda>col. countedCategory toLowerCase (field r col) \<noteq> None)
                           solutionColumns)"
    by (simp add: countOf_fold_counted totalOf_fold_counted)
next
  show "solutionRow toLowerCase_ascii sampleRow solutionCount0
        = Inr (bump solutionCount0 (lit ''Bins and Facilites''))"
    unfolding solutionRow_sample
    by (simp add: solutionCount0_eval bump_def countOf_def lit_eq_iff)
next
  show "totalOf (bump solutionCount0 (lit ''Bins and Facilites'')) = 1"
    by (simp add: totalOf_bump) (simp add: solutionCount0_eval totalOf_def)
qed

theorem solution_row_contributions_witness:
  "textOrAbsent (field sampleRow (lit ''Solution Suggested by Interviewee1''))
   \<and> textOrAbsent (field sampleRow (lit ''Solution Suggested by Interviewee2''))
   \<and> textOrAbsent (field sampleRow (lit ''Solution Suggested by Interviewee3''))
   \<and> countedCategory toLowerCase_ascii (field sampleRow (lit ''Solution Suggested by Interviewee1''))
       = Some (lit ''Bins and Facilites'')
   \<and> countedCategory toLowerCase_ascii (field sampleRow (lit ''Solution Suggested by Interviewee2''))
       = None
   \<and> countedCategory toLowerCase_ascii (field sampleRow (lit ''Solution Suggested by Interviewee3''))
       = None
   \<and> (\<exists>counts'. solutionRow toLowerCase_ascii sampleRow solutionCount0 = Inr counts' \<and>
         countOf counts' (lit ''Bins and Facilites'') = 1 \<and> totalOf counts' = 1)"
proof -
  have t: "\<forall>col\<in>set solutionColumns. textOrAbsent (field sampleRow col)"
    by (simp add: solutionColumns_def field_sampleRow textOrAbsent_def)
  have c1: "countedCategory toLowerCase_ascii (field sampleRow (lit ''Solution Suggested by Interviewee1''))
       = Some (lit ''Bins and Facilites'')"
    using sample_categories(3)
    by (simp add: countedCategory_def field_sampleRow trim_N_A categorizeSolution_def js_or_def
          lit_Nil_iff Let_def)
  have c2: "countedCategory toLowerCase_ascii (field sampleRow (lit ''Solution Suggested by Interviewee2''))
       = None"
    by (simp add: countedCategory_def field_sampleRow)
  have c3: "countedCategory toLowerCase_ascii (field sampleRow (lit ''Solution Suggested by Interviewee3''))
       = None"
    by (simp add: countedCategory_def field_sampleRow trim_def)
  have z: "countOf solutionCount0 (lit ''Bins and Facilites'') = 0" "totalOf solutionCount0 = 0"
    by (simp_all add: solutionCount0_eval countOf_def totalOf_def lit_eq_iff)
  from solution_row_contributions [of sampleRow toLowerCase_ascii solutionCount0] t
  obtain counts' where r: "solutionRow toLowerCase_ascii sampleRow solutionCount0 = Inr counts'"
    and k: "\<forall>c. countOf counts' c = countOf solutionCount0 c +
                 length (filter (\<lambda>col. countedCategory toLowerCase_ascii (field sampleRow col) = Some c)
                           solutionColumns)"
    and n: "totalOf counts' = totalOf solutionCount0 +
                 length (filter (\<lambda>col. countedCategory toLowerCase_ascii (field sampleRow col) \<noteq> None)
                           solutionColumns)"
    by blast
  from k have "countOf counts' (lit ''Bins and Facilites'') = 1"
    by (simp add: solutionColumns_def c1 c2 c3 z)
  moreover from n have "totalOf counts' = 1"
    by (simp add: solutionColumns_def c1 c2 c3 z)
  ultimately have "\<exists>counts'. solutionRow toLowerCase_ascii sampleRow solutionCount0 = Inr counts' \<and>
         countOf counts' (lit ''Bins and Facilites'') = 1 \<and> totalOf counts' = 1"
    using r by blast
  with c1 c2 c3 t show ?thesis
    by (simp add: solutionColumns_def)
qed

section \<open>Which categories are returned\<close>

lemma calculateSolutionData_sample:
  "calculateSolutionData toLowerCase_ascii [sampleRow] =
     Inr [\<lparr>name = lit ''Bins and Facilites'', value = 100\<rparr>,
          \<lparr>name = lit ''Technology-Enabled Monitoring'', value = 0\<rparr>,
          \<lparr>name = lit ''Strict Enforcement Measures '', value = 0\<rparr>,
          \<lparr>name = lit ''Public Awareness & Education '', value = 0\<rparr>,
          \<lparr>name = lit ''Sanitization Vehicle Roster'', value = 0\<rparr>,
          \<lparr>name = lit ''Regulatory & Administrative Support'', value = 0\<rparr>,
          \<lparr>name = lit ''Efficient Waste Collection System'', value = 0\<rparr>,
          \<lparr>name = lit ''Neutral Feedback'', value = 0\<rparr>]"
  by (simp add: calculateSolutionData_def solutionCount_def solutionRow_sample totalOf_def
        percentages_def rounded_shares sortDescending_def)

text \<open>
  \<open>calculateWasteTypeCounts\<close> ends with \<open>.filter((key) => counts[key] > 0)\<close>: for the
  sample record it returns two of the eight waste types. \<open>calculateSolutionData\<close>, a
  free-text aggregation, returns all eight solution categories, seven of them with
  value \<open>0\<close>.
\<close>

theorem zero_count_categories_counterexample:
  "map name (calculateWasteTypeCounts [sampleRow]) = [lit ''Clothes'', lit ''Others'']
   \<and> length wasteTypeToColumnMap = 8
   \<and> map_sum id (map value) (calculateSolutionData toLowerCase_ascii [sampleRow])
       = Inr [100, 0, 0, 0, 0, 0, 0, 0]"
  by (simp add: calculateWasteTypeCounts_def wasteTypeCounts_sample calculateSolutionData_sample
        countOf_def lit_eq_iff)
     (simp add: wasteTypeToColumnMap_def)

text \<open>
  Claim C5, as the code has it. \<open>calculateProblemsData\<close> and \<open>calculateReasonsData\<close>
  return every known category, whatever its count, and so does \<open>calculateSolutionData\<close>
  (its counter is seeded with the eight solution categories). \<open>calculateWasteTypeCounts\<close>
  seeds its counter with the eight waste types but returns only those with a positive
  count (those for which \<open>row[column] === 1\<close> in some record), in table order.
  \<open>calculateWhoDisposeData\<close> and \<open>calculateSettingData\<close> return only categories that the
  classifier has returned for some record, and at most five of them: there is a list
  \<open>shares\<close> with exactly one entry for each category that the classifier has returned for
  some record, the value of an entry being the rounded percentage of the records
  classified so, in descending order of value, and the function returns its first five
  entries (all of them when there are five or fewer).
\<close>

theorem categories_kept_or_dropped:
  "mset (map name (calculateProblemsData data)) = mset (map fst problemsCount0)
   \<and> mset (map name (calculateReasonsData data)) = mset (map fst reasonsCount0)
   \<and> map name (calculateWasteTypeCounts data)
       = filter (\<lambda>type. 0 < countOf (wasteTypeCounts data) type) (map fst wasteTypeToColumnMap)
   \<and> map name (calculateWasteTypeCounts data)
       = map fst (filter (\<lambda>(type, column). \<exists>r\<in>set data. field r column = JNum 1)
                    wasteTypeToColumnMap)
   \<and> (calculateWhoDisposeData toLowerCase data = Inr d \<longrightarrow>
        (\<forall>e\<in>set d. \<exists>r\<in>set data. categorize toLowerCase (disposeValue r) = Inr (name e)))
   \<and> (calculateSettingData toLowerCase data = Inr d' \<longrightarrow>
        (\<forall>e\<in>set d'. \<exists>r\<in>set data.
            categorizeLocation toLowerCase (settingValue r) = Inr (name e)))
   \<and> (calculateSolutionData toLowerCase data = Inr d'' \<longrightarrow>
        mset (map name d'') = mset (map category solutionCategories))
   \<and> (calculateWhoDisposeData toLowerCase data = Inr d \<longrightarrow>
        (\<exists>shares. distinct (map name shares)
           \<and> set (map name shares)
               = {c. \<exists>r\<in>set data. categorize toLowerCase (disposeValue r) = Inr c}
           \<and> (\<forall>e\<in>set shares. value e
                 = fl (fl (real (length (filter (\<lambda>r. categorize toLowerCase (disposeValue r)
                                                        = Inr (name e)) data))
                           / real (length data)) * 100))
           \<and> sorted_wrt (\<lambda>a b. value b \<le> value a) shares
           \<and> d = take 5 shares
           \<and> length shares
               = card {c. \<exists>r\<in>set data. categorize toLowerCase (disposeValue r) = Inr c}))
   \<and> (calculateSettingData toLowerCase data = Inr d' \<longrightarrow>
        (\<exists>shares. distinct (map name shares)
           \<and> set (map name shares)
               = {c. \<exists>r\<in>set data. categorizeLocation toLowerCase (settingValue r) = Inr c}
           \<and> (\<forall>e\<in>set shares. value e
                 = fl (fl (real (length (filter (\<lambda>r. categorizeLocation toLowerCase
                                                          (settingValue r) = Inr (name e)) data))
                           / real (length data)) * 100))
           \<and> sorted_wrt (\<lambda>a b. value b \<le> value a) shares
           \<and> d' = take 5 shares
           \<and> length shares
               = card {c. \<exists>r\<in>set data.
                            categorizeLocation toLowerCase (settingValue r) = Inr c}))"
proof (intro conjI impI ballI)
  show "mset (map name (calculateProblemsData data)) = mset (map fst problemsCount0)"
    by (simp only: calculateProblemsData_def Let_def names_sorted_percentages keys_problemsCount)
  show "mset (map name (calculateReasonsData data)) = mset (map fst reasonsCount0)"
    by (simp only: calculateReasonsData_def Let_def names_sorted_percentages keys_reasonsCount)
  show "map name (calculateWasteTypeCounts data)
       = filter (\<lambda>type. 0 < countOf (wasteTypeCounts data) type) (map fst wasteTypeToColumnMap)"
    by (rule names_positive_counts)
  show "map name (calculateWasteTypeCounts data)
       = map fst (filter (\<lambda>(type, column). \<exists>r\<in>set data. field r column = JNum 1)
                    wasteTypeToColumnMap)"
    by (rule names_wasteTypeCounts)
next
  fix e
  assume a: "calculateWhoDisposeData toLowerCase data = Inr d" and e: "e \<in> set d"
  from a obtain m where m: "disposeCount toLowerCase data = Inr m"
    and d: "d = take 5 (sortDescending (percentages (totalOf m) m))"
    by (auto simp add: calculateWhoDisposeData_def Let_def split: sum.splits)
  from e d have "name e \<in> set (map fst m)"
    by (simp only: names_top5)
  with keys_disposeCount [OF m]
  show "\<exists>r\<in>set data. categorize toLowerCase (disposeValue r) = Inr (name e)"
    by blast
next
  fix e
  assume a: "calculateSettingData toLowerCase data = Inr d'" and e: "e \<in> set d'"
  from a obtain m where m: "settingCount toLowerCase data = Inr m"
    and d: "d' = take 5 (sortDescending (percentages (totalOf m) m))"
    by (auto simp add: calculateSettingData_def Let_def split: sum.splits)
  from e d have "name e \<in> set (map fst m)"
    by (simp only: names_top5)
  with keys_settingCount [OF m]
  show "\<exists>r\<in>set data. categorizeLocation toLowerCase (settingValue r) = Inr (name e)"
    by blast
next
  assume a: "calculateSolutionData toLowerCase data = Inr d''"
  then obtain m where m: "solutionCount toLowerCase data = Inr m"
    by (auto simp add: calculateSolutionData_def split: sum.splits)
  note k = keys_solutionCount [OF m]
  show "mset (map name d'') = mset (map category solutionCategories)"
  proof (cases "totalOf m = 0")
    case True
    with a m have "d'' = map (\<lambda>e. \<lparr>name = category e, value = fl (100 / 8)\<rparr>) solutionCategories"
      by (simp add: calculateSolutionData_def)
    then show ?thesis
      by (simp add: comp_def)
  next
    case False
    with a m have "d'' = sortDescending (percentages (totalOf m) m)"
      by (simp add: calculateSolutionData_def)
    then show ?thesis
      by (simp only: names_sorted_percentages k)
  qed
next
  assume "calculateWhoDisposeData toLowerCase data = Inr d"
  then show "\<exists>shares. distinct (map name shares)
           \<and> set (map name shares)
               = {c. \<exists>r\<in>set data. categorize toLowerCase (disposeValue r) = Inr c}
           \<and> (\<forall>e\<in>set shares. value e
                 = fl (fl (real (length (filter (\<lambda>r. categorize toLowerCase (disposeValue r)
                                                        = Inr (name e)) data))
                           / real (length data)) * 100))
           \<and> sorted_wrt (\<lambda>a b. value b \<le> value a) shares
           \<and> d = take 5 shares
           \<and> length shares
               = card {c. \<exists>r\<in>set data. categorize toLowerCase (disposeValue r) = Inr c}"
    by (rule whoDispose_top5)
next
  assume "calculateSettingData toLowerCase data = Inr d'"
  then show "\<exists>shares. distinct (map name shares)
           \<and> set (map name shares)
               = {c. \<exists>r\<in>set data. categorizeLocation toLowerCase (settingValue r) = Inr c}
           \<and> (\<forall>e\<in>set shares. value e
                 = fl (fl (real (length (filter (\<lambda>r. categorizeLocation toLowerCase
                                                          (settingValue r) = Inr (name e)) data))
                           / real (length data)) * 100))
           \<and> sorted_wrt (\<lambda>a b. value b \<le> value a) shares
           \<and> d' = take 5 shares
           \<and> length shares
               = card {c. \<exists>r\<in>set data.
                            categorizeLocation toLowerCase (settingValue r) = Inr c}"
    by (rule setting_top5)
qed

theorem categories_kept_or_dropped_witness:
  "calculateWhoDisposeData toLowerCase_ascii [sampleRow]
     = Inr [\<lparr>name = lit ''Vendors / Small Stalls'', value = 100\<rparr>]
   \<and> categorize toLowerCase_ascii (disposeValue sampleRow) = Inr (lit ''Vendors / Small Stalls'')
   \<and> calculateSettingData toLowerCase_ascii [sampleRow]
     = Inr [\<lparr>name = lit ''Market / Commercial Area'', value = 100\<rparr>]
   \<and> categorizeLocation toLowerCase_ascii (settingValue sampleRow)
     = Inr (lit ''Market / Commercial Area'')
   \<and> map name (calculateWasteTypeCounts [sampleRow]) = [lit ''Clothes'', lit ''Others'']
   \<and> mset (map name (calculateProblemsData [sampleRow])) = mset (map fst problemsCount0)
   \<and> mset (map name (calculateReasonsData [sampleRow])) = mset (map fst reasonsCount0)
   \<and> map_sum id (\<lambda>d. mset (map name d)) (calculateSolutionData toLowerCase_ascii [sampleRow])
     = Inr (mset (map category solutionCategories))
   \<and> (\<exists>shares. calculateWhoDisposeData toLowerCase_ascii sixDisposers = Inr (take 5 shares)
         \<and> distinct (map name shares)
         \<and> sorted_wrt (\<lambda>a b. value b \<le> value a) shares
         \<and> length shares = 6)
   \<and> (\<exists>shares. calculateSettingData toLowerCase_ascii [sampleRow] = Inr (take 5 shares)
         \<and> distinct (map name shares)
         \<and> sorted_wrt (\<lambda>a b. value b \<le> value a) shares)"
proof -
  let ?d = "[\<lparr>name = lit ''Vendors / Small Stalls'', value = 100\<rparr>]"
  let ?d' = "[\<lparr>name = lit ''Market / Commercial Area'', value = 100\<rparr>]"
  let ?d'' = "[\<lparr>name = lit ''Bins and Facilites'', value = 100\<rparr>,
          \<lparr>name = lit ''Technology-Enabled Monitoring'', value = 0\<rparr>,
          \<lparr>name = lit ''Strict Enforcement Measures '', value = 0\<rparr>,
          \<lparr>name = lit ''Public Awareness & Education '', value = 0\<rparr>,
          \<lparr>name = lit ''Sanitization Vehicle Roster'', value = 0\<rparr>,
          \<lparr>name = lit ''Regulatory & Administrative Support'', value = 0\<rparr>,
          \<lparr>name = lit ''Efficient Waste Collection System'', value = 0\<rparr>,
          \<lparr>name = lit ''Neutral Feedback'', value = 0\<rparr>]"
  let ?five = "[\<lparr>name = lit ''Nearby Households'', value = 4691249611844266 / 2 ^ 48\<rparr>,
          \<lparr>name = lit ''Vendors / Small Stalls'', value = 4691249611844266 / 2 ^ 48\<rparr>,
          \<lparr>name = lit ''People from Outside'', value = 4691249611844266 / 2 ^ 48\<rparr>,
          \<lparr>name = lit ''Passing Crowd / Vehicle People'', value = 4691249611844266 / 2 ^ 48\<rparr>,
          \<lparr>name = lit ''Households and Vendors Mixed'', value = 4691249611844266 / 2 ^ 48\<rparr>]"
  note inst = categories_kept_or_dropped [where data = "[sampleRow]"
      and toLowerCase = toLowerCase_ascii and d = ?d and d' = ?d' and d'' = ?d'']
  note six = categories_kept_or_dropped [where data = sixDisposers
      and toLowerCase = toLowerCase_ascii and d = ?five]
  have a: "calculateWhoDisposeData toLowerCase_ascii [sampleRow] = Inr ?d"
    by (simp add: calculateWhoDisposeData_def disposeCount_sample totalOf_def percentages_def
          rounded_shares sortDescending_def)
  have b: "calculateSettingData toLowerCase_ascii [sampleRow] = Inr ?d'"
    by (simp add: calculateSettingData_def settingCount_sample totalOf_def percentages_def
          rounded_shares sortDescending_def)
  have c: "calculateSolutionData toLowerCase_ascii [sampleRow] = Inr ?d''"
    by (rule calculateSolutionData_sample)
  have w: "filter (\<lambda>(type, column). \<exists>r\<in>set [sampleRow]. field r column = JNum 1)
             wasteTypeToColumnMap
             = [(lit ''Clothes'', lit ''Clothes Waste''), (lit ''Others'', lit ''Others'')]"
    by (simp add: wasteTypeToColumnMap_def field_sampleRow)
  note i1 = inst [THEN conjunct1]
  note i2 = inst [THEN conjunct2, THEN conjunct1]
  note i4 = inst [THEN conjunct2, THEN conjunct2, THEN conjunct2, THEN conjunct1]
  note i5 = inst [THEN conjunct2, THEN conjunct2, THEN conjunct2, THEN conjunct2,
      THEN conjunct1, THEN mp, OF a]
  note i6 = inst [THEN conjunct2, THEN conjunct2, THEN conjunct2, THEN conjunct2,
      THEN conjunct2, THEN conjunct1, THEN mp, OF b]
  note i7 = inst [THEN conjunct2, THEN conjunct2, THEN conjunct2, THEN conjunct2,
      THEN conjunct2, THEN conjunct2, THEN conjunct1, THEN mp, OF c]
  note i8 = six [THEN conjunct2, THEN conjunct2, THEN conjunct2, THEN conjunct2,
      THEN conjunct2, THEN conjunct2, THEN conjunct2, THEN conjunct1, THEN mp,
      OF calculateWhoDisposeData_six]
  note i9 = inst [THEN conjunct2, THEN conjunct2, THEN conjunct2, THEN conjunct2,
      THEN conjunct2, THEN conjunct2, THEN conjunct2, THEN conjunct2, THEN mp, OF b]
  from i5 have r1: "categorize toLowerCase_ascii (disposeValue sampleRow)
      = Inr (lit ''Vendors / Small Stalls'')"
    by simp
  from i6 have r2: "categorizeLocation toLowerCase_ascii (settingValue sampleRow)
      = Inr (lit ''Market / Commercial Area'')"
    by simp
  from i4 have r3: "map name (calculateWasteTypeCounts [sampleRow])
      = [lit ''Clothes'', lit ''Others'']"
    by (simp only: w list.map fst_conv)
  from i7 have r4: "map_sum id (\<lambda>d. mset (map name d))
      (calculateSolutionData toLowerCase_ascii [sampleRow])
     = Inr (mset (map category solutionCategories))"
    by (simp only: c map_sum.simps)
  from i8 obtain shares where s: "distinct (map name shares)"
      "sorted_wrt (\<lambda>a b. value b \<le> value a) shares" "?five = take 5 shares"
      "length shares = card {c. \<exists>r\<in>set sixDisposers.
          categorize toLowerCase_ascii (disposeValue r) = Inr c}"
    by blast
  from s(4) have l: "length shares = 6"
    by (simp only: six_observed)
  from calculateWhoDisposeData_six s(3)
  have "calculateWhoDisposeData toLowerCase_ascii sixDisposers = Inr (take 5 shares)"
    by (rule trans [OF _ arg_cong [of _ _ Inr]])
  with s(1,2) l
  have r5: "\<exists>shares. calculateWhoDisposeData toLowerCase_ascii sixDisposers = Inr (take 5 shares)
         \<and> distinct (map name shares)
         \<and> sorted_wrt (\<lambda>a b. value b \<le> value a) shares
         \<and> length shares = 6"
    by blast
  from i9 obtain shares' where s': "distinct (map name shares')"
      "sorted_wrt (\<lambda>a b. value b \<le> value a) shares'" "?d' = take 5 shares'"
    by blast
  from b s'(3)
  have "calculateSettingData toLowerCase_ascii [sampleRow] = Inr (take 5 shares')"
    by (rule trans [OF _ arg_cong [of _ _ Inr]])
  with s'(1,2)
  have r6: "\<exists>shares. calculateSettingData toLowerCase_ascii [sampleRow] = Inr (take 5 shares)
         \<and> distinct (map name shares)
         \<and> sorted_wrt (\<lambda>a b. value b \<le> value a) shares"
    by blast
  from a r1 b r2 r3 i1 i2 r4 r5 r6 show ?thesis
    by (intro conjI)
qed
end
